theory Spec2Isabelle
  imports Main
begin

section \<open>Python strings and integers, as far as the tutor bot uses them\<close>

text \<open>
  The bot (\<^verbatim>\<open>my_agent_bot.py\<close>) works on Python \<^verbatim>\<open>str\<close> values. A \<^typ>\<open>string\<close> here is
  a list of 8-bit characters, read as the code points 0 to 255 (Latin-1), so the model
  covers every text whose code points are below 256. Pictographs that stand in front of
  some user-visible texts and log lines of the source lie outside that range; they are
  left out of the literals below and nothing else of those texts is changed.
\<close>

text \<open>\<^verbatim>\<open>str.isspace\<close> on one code point below 256 (also the class \<^verbatim>\<open>\s\<close> of \<^verbatim>\<open>re\<close>).\<close>

definition isspace :: "char \<Rightarrow> bool" where
  "isspace c = (of_char c \<in> {9, 10, 11, 12, 13, 28, 29, 30, 31, 32, 133, 160 :: nat})"

text \<open>\<^verbatim>\<open>str.isdigit\<close> restricted to the class \<^verbatim>\<open>\d\<close>: below 256 only 0 to 9 are decimal digits.\<close>

definition isdigit :: "char \<Rightarrow> bool" where
  "isdigit c = (48 \<le> (of_char c :: nat) \<and> (of_char c :: nat) \<le> 57)"

text \<open>\<^verbatim>\<open>str.lower\<close>: A to Z, and the Latin-1 capitals 192 to 222 without the
  multiplication sign 215, move up by 32; every other code point below 256 stays.\<close>

definition lower_char :: "char \<Rightarrow> char" where
  "lower_char c =
     (let n = (of_char c :: nat)
      in if (65 \<le> n \<and> n \<le> 90) \<or> (192 \<le> n \<and> n \<le> 222 \<and> n \<noteq> 215)
         then char_of (n + 32) else c)"

definition lower :: "string \<Rightarrow> string" where
  "lower s = map lower_char s"

text \<open>\<^verbatim>\<open>str.strip()\<close> with no argument: white space is removed at both ends.\<close>

definition strip :: "string \<Rightarrow> string" where
  "strip s = rev (dropWhile isspace (rev (dropWhile isspace s)))"

definition startswith :: "string \<Rightarrow> string \<Rightarrow> bool" where
  "startswith s p = (take (length p) s = p)"

definition endswith :: "string \<Rightarrow> string \<Rightarrow> bool" where
  "endswith s p = (length p \<le> length s \<and> drop (length s - length p) s = p)"

text \<open>The operator \<^verbatim>\<open>sub in s\<close> on strings: \<open>sub\<close> occurs in \<open>s\<close> as a contiguous piece.\<close>

fun contains :: "string \<Rightarrow> string \<Rightarrow> bool" where
  "contains [] sub = (sub = [])"
| "contains (c # cs) sub = (startswith (c # cs) sub \<or> contains cs sub)"

text \<open>\<^verbatim>\<open>s.replace(old, new)\<close> for a non-empty \<open>old\<close>: one pass from the left, each
  occurrence found is replaced and the scan goes on behind it. (With an empty \<open>old\<close>
  Python puts \<open>new\<close> around every character; the bot never does that and the model
  returns the text unchanged there.)\<close>

function replace :: "string \<Rightarrow> string \<Rightarrow> string \<Rightarrow> string" where
  "replace [] old new = []"
| "replace (c # cs) old new =
     (if old \<noteq> [] \<and> startswith (c # cs) old
      then new @ replace (drop (length old) (c # cs)) old new
      else c # replace cs old new)"
  by pat_completeness auto
termination
  by (relation "measure (\<lambda>(s, old, new). length s)") (auto simp: neq_Nil_conv)

text \<open>\<^verbatim>\<open>sep.join(xs)\<close>.\<close>

fun join :: "string \<Rightarrow> string list \<Rightarrow> string" where
  "join sep [] = []"
| "join sep [x] = x"
| "join sep (x # y # ys) = x @ sep @ join sep (y # ys)"

text \<open>\<^verbatim>\<open>str(n)\<close> for an integer: decimal digits, a minus sign in front of a negative.\<close>

fun digits :: "nat \<Rightarrow> string" where
  "digits n = (if n < 10 then [''0123456789'' ! n] else digits (n div 10) @ [''0123456789'' ! (n mod 10)])"

declare digits.simps [simp del]

definition str :: "int \<Rightarrow> string" where
  "str i = (if i < 0 then CHR ''-'' # digits (nat (- i)) else digits (nat i))"

text \<open>\<^verbatim>\<open>int(ds)\<close> for a string of decimal digits.\<close>

definition digit_val :: "char \<Rightarrow> int" where
  "digit_val c = int (of_char c) - 48"

definition int_of_digits :: "string \<Rightarrow> int" where
  "int_of_digits ds = foldl (\<lambda>acc c. 10 * acc + digit_val c) 0 ds"

text \<open>Indexing a list the way Python does: a negative index counts from the end, an
  index out of range raises \<^verbatim>\<open>IndexError\<close>.\<close>

datatype exn = Exception string

type_synonym 'a result = "exn + 'a"

definition getitem :: "'a list \<Rightarrow> int \<Rightarrow> 'a result" where
  "getitem xs i =
     (if 0 \<le> i \<and> i < int (length xs) then Inr (xs ! nat i)
      else if i < 0 \<and> - int (length xs) \<le> i then Inr (xs ! nat (int (length xs) + i))
      else Inl (Exception ''list index out of range''))"

section \<open>The world the bot runs in\<close>

text \<open>
  Everything the handlers touch is one value: the conversation's session
  (\<^verbatim>\<open>cl.user_session\<close>), the database, the messages shown to the student in the order
  sent, and the log. A handler takes the world and returns the new one together with its
  Python outcome: \<open>Inr v\<close> when it returns \<open>v\<close>, \<open>Inl (Exception m)\<close> when an exception
  with \<^verbatim>\<open>str(e) = m\<close> leaves it. The exceptions are those under \<^verbatim>\<open>Exception\<close>, the ones
  an \<^verbatim>\<open>except Exception\<close> clause catches.
\<close>

datatype level = INFO | WARNING | ERROR

text \<open>What the student sees. \<open>Sent c\<close>: a message of its own with content \<open>c\<close> appears
  (\<^verbatim>\<open>cl.Message(content=c).send()\<close>). \<open>Reply c\<close>: the reply message of the handled
  message now shows \<open>c\<close>. The reply message is the one \<^verbatim>\<open>main\<close> sends empty as a
  placeholder; \<^verbatim>\<open>StreamHandler\<close> sends and updates its messages under that message's id, so
  each of its \<^verbatim>\<open>send()\<close> and \<^verbatim>\<open>update()\<close> calls changes what that one message shows.\<close>

datatype ui_event = Sent string | Reply string

datatype role = Human | AI

text \<open>The four statements the bot sends to PostgreSQL, with their parameters.
  \<open>UpsertSession sid idx ti lm\<close> is the \<^verbatim>\<open>INSERT ... ON CONFLICT (student_id) DO UPDATE\<close> of
  \<^verbatim>\<open>save_session_to_db\<close>; \<open>ti\<close> and \<open>lm\<close> are present when the update sets
  \<^verbatim>\<open>total_interactions\<close> and \<^verbatim>\<open>last_message_content\<close>.\<close>

datatype sql =
    UpsertSession string int "int option" "string option"
  | InsertEvaluation string string "int option" string
  | IncrCompletedSteps string
  | IncrTotalInteractions string

text \<open>The database is outside the repository. It is modelled by what the bot can observe
  and cause: the environment variable \<^verbatim>\<open>DATABASE_URL\<close>, whether
  \<^verbatim>\<open>asyncpg.connect\<close>, \<^verbatim>\<open>conn.execute\<close> (per statement) and \<^verbatim>\<open>conn.close\<close> raise, and the
  statements that were executed, oldest first.\<close>

record store =
  database_url :: "string option"
  connect_fault :: "string option"
  execute_fault :: "sql \<Rightarrow> string option"
  close_fault :: "string option"
  executed :: "sql list"

text \<open>The session keys that \<^verbatim>\<open>start\<close> sets, one field each; \<open>student_id = None\<close> is
  a session without that key. \<open>step_interactions\<close> is the dictionary from
  \<^verbatim>\<open>f"step_{i}"\<close> to the count, \<open>memory\<close> holds the keys \<^verbatim>\<open>f"{agent}_memory"\<close> by agent
  name. The start time is left to the clock (see \<open>elapsed\<close> below). \<^verbatim>\<open>start\<close> sets the
  student id and the other keys in one run with nothing in between that can fail, so a
  session that has a student id has the other keys too, and the defaults of the \<^verbatim>\<open>get\<close>
  calls in \<^verbatim>\<open>main\<close> are never used.\<close>

record session =
  student_id :: "string option"
  current_step_index :: int
  current_step :: string
  agent :: string
  pitch_steps :: "string list"
  total_steps :: int
  step_interactions :: "string \<rightharpoonup> int"
  memory :: "string \<rightharpoonup> (role \<times> string) list"

record world =
  session :: session
  store :: store
  outbox :: "ui_event list"
  logs :: "(level \<times> string) list"

definition send :: "string \<Rightarrow> world \<Rightarrow> world" where
  "send c w = w\<lparr>outbox := outbox w @ [Sent c]\<rparr>"

definition show_reply :: "string \<Rightarrow> world \<Rightarrow> world" where
  "show_reply c w = w\<lparr>outbox := outbox w @ [Reply c]\<rparr>"

text \<open>Reading the outbox: the contents of the messages sent on their own, oldest first,
  and what the reply message shows in the end.\<close>

fun notifications :: "ui_event list \<Rightarrow> string list" where
  "notifications [] = []"
| "notifications (Sent c # es) = c # notifications es"
| "notifications (Reply c # es) = notifications es"

fun displayed :: "ui_event list \<Rightarrow> string option" where
  "displayed [] = None"
| "displayed (Sent c # es) = displayed es"
| "displayed (Reply c # es) = (case displayed es of None \<Rightarrow> Some c | Some c' \<Rightarrow> Some c')"

definition logging :: "level \<Rightarrow> string \<Rightarrow> world \<Rightarrow> world" where
  "logging l m w = w\<lparr>logs := logs w @ [(l, m)]\<rparr>"

text \<open>Python truth of an optional string: \<^verbatim>\<open>None\<close> and the empty string are false.\<close>

definition truthy :: "string option \<Rightarrow> bool" where
  "truthy v = (case v of None \<Rightarrow> False | Some s \<Rightarrow> s \<noteq> [])"

section \<open>The three database operations\<close>

definition execute :: "sql \<Rightarrow> world \<Rightarrow> unit result \<times> world" where
  "execute q w =
     (case execute_fault (store w) q of
        Some e \<Rightarrow> (Inl (Exception e), w)
      | None \<Rightarrow> (Inr (), w\<lparr>store := (store w)\<lparr>executed := executed (store w) @ [q]\<rparr>\<rparr>))"

definition close :: "world \<Rightarrow> unit result" where
  "close w = (case close_fault (store w) of Some e \<Rightarrow> Inl (Exception e) | None \<Rightarrow> Inr ())"

text \<open>The lines every operation starts with: read \<^verbatim>\<open>DATABASE_URL\<close>, return \<^verbatim>\<open>False\<close>
  when it is not set, connect. \<open>Inr False\<close> is that early return, \<open>Inr True\<close> an open
  connection.\<close>

definition connect :: "world \<Rightarrow> bool result \<times> world" where
  "connect w =
     (if \<not> truthy (database_url (store w))
      then (Inr False, logging ERROR ''DATABASE_URL environment variable not set'' w)
      else (case connect_fault (store w) of
              Some e \<Rightarrow> (Inl (Exception e), w)
            | None \<Rightarrow> (Inr True, logging INFO ''Connected to database successfully'' w)))"

text \<open>The bodies of the \<^verbatim>\<open>try\<close> blocks, and the functions with their
  \<^verbatim>\<open>except Exception\<close> clause around them.\<close>

definition save_session_body ::
  "string \<Rightarrow> int \<Rightarrow> int option \<Rightarrow> string option \<Rightarrow> world \<Rightarrow> bool result \<times> world" where
  "save_session_body sid idx ti lm w =
     (case connect w of
        (Inl e, w1) \<Rightarrow> (Inl e, w1)
      | (Inr False, w1) \<Rightarrow> (Inr False, w1)
      | (Inr True, w1) \<Rightarrow>
          (case execute (UpsertSession sid idx ti lm) w1 of
             (Inl e, w2) \<Rightarrow> (Inl e, w2)
           | (Inr _, w2) \<Rightarrow>
               (case close w2 of
                  Inl e \<Rightarrow> (Inl e, w2)
                | Inr _ \<Rightarrow> (Inr True, logging INFO (''Session saved for student '' @ sid) w2))))"

definition save_session_to_db ::
  "string \<Rightarrow> int \<Rightarrow> int option \<Rightarrow> string option \<Rightarrow> world \<Rightarrow> bool result \<times> world" where
  "save_session_to_db sid idx ti lm w =
     (case save_session_body sid idx ti lm w of
        (Inr b, w') \<Rightarrow> (Inr b, w')
      | (Inl (Exception e), w') \<Rightarrow> (Inr False, logging ERROR (''Error saving session: '' @ e) w'))"

definition save_pitch_body ::
  "string \<Rightarrow> string \<Rightarrow> int option \<Rightarrow> string \<Rightarrow> world \<Rightarrow> bool result \<times> world" where
  "save_pitch_body sid step_name score feedback w =
     (case connect w of
        (Inl e, w1) \<Rightarrow> (Inl e, w1)
      | (Inr False, w1) \<Rightarrow> (Inr False, w1)
      | (Inr True, w1) \<Rightarrow>
          (case execute (InsertEvaluation sid step_name score feedback) w1 of
             (Inl e, w2) \<Rightarrow> (Inl e, w2)
           | (Inr _, w2) \<Rightarrow>
               (case execute (IncrCompletedSteps sid) w2 of
                  (Inl e, w3) \<Rightarrow> (Inl e, w3)
                | (Inr _, w3) \<Rightarrow>
                    (case close w3 of
                       Inl e \<Rightarrow> (Inl e, w3)
                     | Inr _ \<Rightarrow>
                         (Inr True,
                          logging INFO (''Pitch evaluation saved for student '' @ sid @ '', step '' @ step_name) w3)))))"

definition save_pitch_evaluation ::
  "string \<Rightarrow> string \<Rightarrow> int option \<Rightarrow> string \<Rightarrow> world \<Rightarrow> bool result \<times> world" where
  "save_pitch_evaluation sid step_name score feedback w =
     (case save_pitch_body sid step_name score feedback w of
        (Inr b, w') \<Rightarrow> (Inr b, w')
      | (Inl (Exception e), w') \<Rightarrow> (Inr False, logging ERROR (''Error saving pitch evaluation: '' @ e) w'))"

definition increment_body :: "string \<Rightarrow> world \<Rightarrow> bool result \<times> world" where
  "increment_body sid w =
     (case connect w of
        (Inl e, w1) \<Rightarrow> (Inl e, w1)
      | (Inr False, w1) \<Rightarrow> (Inr False, w1)
      | (Inr True, w1) \<Rightarrow>
          (case execute (IncrTotalInteractions sid) w1 of
             (Inl e, w2) \<Rightarrow> (Inl e, w2)
           | (Inr _, w2) \<Rightarrow>
               (case close w2 of
                  Inl e \<Rightarrow> (Inl e, w2)
                | Inr _ \<Rightarrow> (Inr True, logging INFO (''Incremented interactions for student '' @ sid) w2))))"

definition increment_interactions :: "string \<Rightarrow> world \<Rightarrow> bool result \<times> world" where
  "increment_interactions sid w =
     (case increment_body sid w of
        (Inr b, w') \<Rightarrow> (Inr b, w')
      | (Inl (Exception e), w') \<Rightarrow> (Inr False, logging ERROR (''Error incrementing interactions: '' @ e) w'))"

section \<open>The document extractor\<close>

text \<open>An uploaded file (\<^verbatim>\<open>cl.File\<close>): its name, and what the two parsers make of it. \<open>pdf_pages\<close> is
  \<^verbatim>\<open>page.extract_text()\<close> of every page of \<^verbatim>\<open>PyPDF2.PdfReader(file.path)\<close> in page order,
  \<open>docx_paragraphs\<close> is \<^verbatim>\<open>para.text\<close> of every paragraph of \<^verbatim>\<open>Document(file.path)\<close>; each
  is \<open>Inl\<close> when the parser raises.\<close>

record cl_file =
  name :: string
  pdf_pages :: "string list result"
  docx_paragraphs :: "string list result"

definition extract_body :: "cl_file \<Rightarrow> world \<Rightarrow> string option result \<times> world" where
  "extract_body f w =
     (if endswith (name f) ''.pdf'' then
        (case pdf_pages f of
           Inl e \<Rightarrow> (Inl e, w)
         | Inr pages \<Rightarrow> (Inr (Some (join ''\<newline>'' (filter (\<lambda>t. t \<noteq> []) pages))), w))
      else if endswith (name f) ''.docx'' then
        (case docx_paragraphs f of
           Inl e \<Rightarrow> (Inl e, w)
         | Inr paras \<Rightarrow> (Inr (Some (join ''\<newline>'' paras)), w))
      else (Inr None, logging WARNING ('' Unsupported file type: '' @ name f) w))"

definition extract_text_from_file :: "cl_file \<Rightarrow> world \<Rightarrow> string option result \<times> world" where
  "extract_text_from_file f w =
     (case extract_body f w of
        (Inr r, w') \<Rightarrow> (Inr r, w')
      | (Inl (Exception e), w') \<Rightarrow>
          (Inr None, logging ERROR ('' Error extracting text from '' @ name f @ '': '' @ e) w'))"

section \<open>The score in the evaluator's feedback\<close>

text \<open>
  \<^verbatim>\<open>re.search(r"[Ss]core[:\s]+(\d{1,2})\s*/\s*10", feedback)\<close>, written out. \<open>score_at\<close>
  is the pattern tried at the beginning of a text and returns group 1. The pattern has one
  way to go at each repetition but the digits: a run of \<^verbatim>\<open>[:\s]\<close> or of \<^verbatim>\<open>\s\<close> has to be taken
  whole, because what must follow it (a digit, the slash, the 1) is not in the class.
  For \<^verbatim>\<open>\d{1,2}\<close> the matcher tries two digits first and one digit after that, as
  \<open>score_digits\<close> does. \<open>score_search\<close> tries the start positions from the left.
\<close>

definition sep_char :: "char \<Rightarrow> bool" where
  "sep_char c = (c = CHR '':'' \<or> isspace c)"

definition score_tail :: "string \<Rightarrow> bool" where
  "score_tail r =
     (case dropWhile isspace r of
        [] \<Rightarrow> False
      | c # r' \<Rightarrow> c = CHR ''/'' \<and> startswith (dropWhile isspace r') ''10'')"

definition score_digits :: "string \<Rightarrow> string option" where
  "score_digits r =
     (case r of
        [] \<Rightarrow> None
      | d1 # r1 \<Rightarrow>
          if \<not> isdigit d1 then None
          else (case r1 of
                  [] \<Rightarrow> if score_tail [] then Some [d1] else None
                | d2 # r2 \<Rightarrow>
                    if isdigit d2 \<and> score_tail r2 then Some [d1, d2]
                    else if score_tail (d2 # r2) then Some [d1]
                    else None))"

definition score_at :: "string \<Rightarrow> string option" where
  "score_at s =
     (case s of
        [] \<Rightarrow> None
      | c # r \<Rightarrow>
          if (c = CHR ''S'' \<or> c = CHR ''s'') \<and> startswith r ''core''
          then (let r1 = drop 4 r
                in if takeWhile sep_char r1 = [] then None
                   else score_digits (dropWhile sep_char r1))
          else None)"

fun score_search :: "string \<Rightarrow> string option" where
  "score_search [] = score_at []"
| "score_search (c # cs) =
     (case score_at (c # cs) of Some g \<Rightarrow> Some g | None \<Rightarrow> score_search cs)"

text \<open>\<^verbatim>\<open>score = int(match.group(1)) if match else None\<close>\<close>

definition parse_score :: "string \<Rightarrow> int option" where
  "parse_score feedback = map_option int_of_digits (score_search feedback)"

section \<open>What a message handler gets from outside\<close>

text \<open>
  One value per handled message: \<open>elapsed\<close> is the clock reading as the progress report
  prints it (\<^verbatim>\<open>f"{elapsed_time:.1f}"\<close>); \<open>reply_tokens\<close> are the fragments the completion
  service streams for this message, and \<open>reply_error\<close> the error it ends with, if any;
  \<open>upload\<close> is the file the student hands over when asked (\<open>None\<close>: none before the
  timeout); \<open>evaluator\<close> is the evaluator persona's answer to a pitch text.
\<close>

record env =
  elapsed :: string
  reply_tokens :: "string list"
  reply_error :: "string option"
  upload :: "cl_file option"
  evaluator :: "string \<Rightarrow> string result"

section \<open>The evaluation pipeline\<close>

definition session_error_text :: string where
  "session_error_text =
     '' **Session Error**\<newline>\<newline>Your session appears to have expired or you haven't logged in.\<newline>Please refresh the page and enter your Student ID again.''"

definition evaluate_body :: "env \<Rightarrow> string \<Rightarrow> string \<Rightarrow> string \<Rightarrow> world \<Rightarrow> unit result \<times> world" where
  "evaluate_body env sid step pitch_text w =
     (case evaluator env pitch_text of
        Inl e \<Rightarrow> (Inl e, w)
      | Inr feedback \<Rightarrow>
          (let score = parse_score feedback
           in case save_pitch_evaluation sid step score feedback w of
                (Inl e, w1) \<Rightarrow> (Inl e, w1)
              | (Inr save_result, w1) \<Rightarrow>
                  (let w2 = (if \<not> save_result
                             then logging WARNING (''Failed to save pitch evaluation for student '' @ sid) w1
                             else w1)
                   in (Inr (), send ('' Evaluation Complete:\<newline>\<newline>'' @ feedback) w2))))"

definition evaluate_except :: "string \<Rightarrow> string \<Rightarrow> world \<Rightarrow> world" where
  "evaluate_except sid error_msg w =
     (let w1 = logging ERROR ('' Evaluation Error: '' @ error_msg) w
      in if contains (lower error_msg) ''connect'' \<or> contains (lower error_msg) ''database''
         then send ('' **Database Connection Error**\<newline>\<newline>There was an issue connecting to the database to store your pitch evaluation.\<newline>\<newline>Your pitch was successfully evaluated, but we couldn't save it to the database.\<newline>\<newline>Error details: ''
                    @ error_msg @ ''\<newline>\<newline>Please take a screenshot of this message and your Student ID: #'' @ sid) w1
         else if contains (lower error_msg) ''openai''
         then send '' **AI Service Error**\<newline>\<newline>There was an issue connecting to the AI service for evaluation.\<newline>Please try again in a moment.'' w1
         else send ('' Error during pitch evaluation. Please try again.\<newline>\<newline>Error details: '' @ error_msg) w1)"

definition extract_failed_text :: string where
  "extract_failed_text = '' Couldn't extract text. Please upload a valid `.pdf` or `.docx`.''"

definition process_file :: "env \<Rightarrow> cl_file \<Rightarrow> world \<Rightarrow> unit result \<times> world" where
  "process_file env f w =
     (case extract_text_from_file f w of
        (Inl e, w1) \<Rightarrow> (Inl e, w1)
      | (Inr pitch_text, w1) \<Rightarrow>
          (case student_id (session w1) of
             None \<Rightarrow> (Inr (), send session_error_text w1)
           | Some sid \<Rightarrow>
               if sid = [] then (Inr (), send session_error_text w1)
               else (case pitch_text of
                       None \<Rightarrow> (Inr (), send extract_failed_text w1)
                     | Some txt \<Rightarrow>
                         if txt = []
                         then (Inr (), send extract_failed_text w1)
                         else (case evaluate_body env sid (current_step (session w1)) txt w1 of
                                 (Inr u, w2) \<Rightarrow> (Inr u, w2)
                               | (Inl (Exception e), w2) \<Rightarrow> (Inr (), evaluate_except sid e w2)))))"

section \<open>Session start\<close>

definition all_pitch_steps :: "string list" where
  "all_pitch_steps =
     [''Identify the Target Audience'',
      ''Define the Problem/Need'',
      ''Introduce the Product/Service'',
      ''Highlight the Key Differentiator'',
      ''End with a Strong Closing Statement'']"

definition welcome_text :: "string \<Rightarrow> string" where
  "welcome_text sid =
     '' **Welcome to the AI Elevator Pitch Tutor, Student #'' @ sid @
     ''!** \<newline>\<newline> This tutor is powered by **four AI agents**:\<newline>-  **Mentor Agent**  Guides you step-by-step with practical feedback.\<newline>-  **Peer Agent**  Thinks with you like a fellow student.\<newline>-  **Progress Agent**  Tracks your step-by-step progress.\<newline>-  **Evaluator Agent**  Reviews and scores your final pitch.\<newline>\<newline> **Commands:**\<newline>- `/next` - Move to the next step when you're ready\<newline>- `/progress` - Check your current progress and time spent\<newline>- `/mentor`, `/peer`, `/progress`, `/eval` - Switch between agents\<newline>- `/upload` - Submit your final pitch\<newline>\<newline> **Session Information:**\<newline>- Your Student ID is: **'' @ sid @
     ''**\<newline>- Your progress is automatically saved as you complete steps\<newline>\<newline> **IMPORTANT:** The tutor will guide you through each step with focused questions. When you feel ready to move on, simply type `/next` to proceed to the next step.\<newline>\<newline> You're now talking to the **Mentor Agent**.''"

text \<open>\<^verbatim>\<open>start\<close>; \<open>rnd\<close> is the draw of \<^verbatim>\<open>random.randint(10000000, 99999999)\<close>.\<close>

definition start :: "int \<Rightarrow> world \<Rightarrow> unit result \<times> world" where
  "start rnd w =
     (let sid = str rnd;
          w1 = send (''You've been assigned Student ID: #'' @ sid @
                     ''\<newline>\<newline>IMPORTANT: Please write down this ID for your records. You'll need it to identify your data in the experiment.'') w;
          w2 = w1\<lparr>session := (session w1)\<lparr>student_id := Some sid, current_step_index := 0,
                                              current_step := all_pitch_steps ! 0\<rparr>\<rparr>;
          w3 = logging INFO (''New student assigned ID: '' @ sid) w2;
          w4 = w3\<lparr>session := (session w3)\<lparr>agent := ''mentor'', pitch_steps := all_pitch_steps,
                                              total_steps := int (length all_pitch_steps),
                                              step_interactions := Map.empty\<rparr>\<rparr>;
          w5 = (case save_session_to_db sid (current_step_index (session w4)) None None w4 of
                  (Inr save_result, w') \<Rightarrow>
                    if \<not> save_result
                    then logging INFO ''Initial session not saved to database, continuing with local session only'' w'
                    else w'
                | (Inl (Exception e), w') \<Rightarrow> logging ERROR (''Error saving initial session: '' @ e) w')
      in (Inr (), send (welcome_text sid) w5))"

section \<open>The message handler\<close>

subsection \<open>Progress report\<close>

definition step_key :: "int \<Rightarrow> string" where
  "step_key i = ''step_'' @ str i"

text \<open>\<^verbatim>\<open>d.get(key, 0)\<close>\<close>

definition get_count :: "(string \<rightharpoonup> int) \<Rightarrow> string \<Rightarrow> int" where
  "get_count d k = (case d k of None \<Rightarrow> 0 | Some n \<Rightarrow> n)"

text \<open>\<^verbatim>\<open>int((current_step_index / total_steps) * 100) if total_steps > 0 else 0\<close>. The source
  divides and multiplies in binary floating point and \<^verbatim>\<open>int\<close> cuts towards zero; the model
  computes the exact quotient, cut towards zero. For the five steps and the indices 0 to
  4 both give 0, 20, 40, 60, 80.\<close>

definition progress_percentage :: "int \<Rightarrow> int \<Rightarrow> int" where
  "progress_percentage idx steps =
     (if steps > 0
      then (if 0 \<le> idx then (idx * 100) div steps else - ((- idx * 100) div steps))
      else 0)"

definition progress_text :: "string \<Rightarrow> string \<Rightarrow> session \<Rightarrow> int \<Rightarrow> string" where
  "progress_text elapsed_time sid s interaction_count =
     (let remaining = max 0 (2 - interaction_count);
          interaction_info = ''You need at least 2 interactions per step (need '' @ str remaining @
                             '' more) or type /next to proceed.''
      in '' **Time elapsed:** '' @ elapsed_time @
         '' minutes\<newline> **Progress:** '' @ str (progress_percentage (current_step_index s) (total_steps s)) @
         ''% complete\<newline> **Current step:** '' @ current_step s @
         '' ('' @ str (current_step_index s + 1) @ ''/'' @ str (total_steps s) @
         '')\<newline> **Step interactions:** '' @ str interaction_count @ '' ('' @ interaction_info @
         '')\<newline> **Student ID:** '' @ sid @ '' (IMPORTANT: Write down this ID for your records!)'')"

definition progress_check :: "env \<Rightarrow> string \<Rightarrow> world \<Rightarrow> world" where
  "progress_check env sid w =
     (let s = session w;
          interaction_count = get_count (step_interactions s) (step_key (current_step_index s))
      in send (progress_text (elapsed env) sid s interaction_count) w)"

subsection \<open>Agent switch\<close>

text \<open>\<^verbatim>\<open>str.capitalize\<close>: first character to upper case, the rest to lower case. The bot
  applies it to the four agent names only, so the upper case of a to z is all it needs.\<close>

definition upper_char :: "char \<Rightarrow> char" where
  "upper_char c =
     (let n = (of_char c :: nat) in if 97 \<le> n \<and> n \<le> 122 then char_of (n - 32) else c)"

definition capitalize :: "string \<Rightarrow> string" where
  "capitalize s = (case s of [] \<Rightarrow> [] | c # cs \<Rightarrow> upper_char c # lower cs)"

definition switch_agent :: "string \<Rightarrow> string \<Rightarrow> world \<Rightarrow> world" where
  "switch_agent sid text w =
     (let new_agent = drop 1 (lower text);
          w1 = w\<lparr>session := (session w)\<lparr>agent := new_agent\<rparr>\<rparr>
      in send ('' Switched to **'' @ capitalize new_agent @
               '' Agent**\<newline>\<newline>Remember your Student ID: #'' @ sid) w1)"

subsection \<open>Streaming the reply\<close>

text \<open>\<^verbatim>\<open>StreamHandler\<close>: \<open>content\<close> is the text received so far, \<open>msg\<close> the content of the
  message that shows it (\<open>None\<close> until the first fragment or an error creates it).\<close>

record stream_handler =
  content :: string
  msg :: "string option"

definition on_llm_new_token :: "string \<Rightarrow> stream_handler \<times> world \<Rightarrow> stream_handler \<times> world" where
  "on_llm_new_token token hw =
     (case hw of
        (h, w) \<Rightarrow>
          (let c = content h @ token
           in case msg h of
                None \<Rightarrow> (h\<lparr>content := c, msg := Some c\<rparr>, show_reply c w)
              | Some _ \<Rightarrow> (h\<lparr>content := c, msg := Some c\<rparr>, show_reply c w)))"

definition on_llm_error :: "string \<Rightarrow> stream_handler \<times> world \<Rightarrow> stream_handler \<times> world" where
  "on_llm_error e hw =
     (case hw of
        (h, w) \<Rightarrow>
          (let error_msg = ''Error: '' @ e
           in case msg h of
                None \<Rightarrow> (h\<lparr>msg := Some error_msg\<rparr>, show_reply error_msg w)
              | Some _ \<Rightarrow> (h\<lparr>msg := Some error_msg\<rparr>, show_reply error_msg w)))"

text \<open>\<^verbatim>\<open>await chain.ainvoke(chain_input)\<close> with a fresh handler: the fragments arrive in
  order; when the service fails, the handler is told and the call raises.\<close>

definition ainvoke :: "env \<Rightarrow> world \<Rightarrow> stream_handler result \<times> world" where
  "ainvoke env w =
     (case foldl (\<lambda>hw token. on_llm_new_token token hw) (\<lparr>content = [], msg = None\<rparr>, w) (reply_tokens env) of
        (h, w1) \<Rightarrow>
          (case reply_error env of
             None \<Rightarrow> (Inr h, w1)
           | Some e \<Rightarrow> (Inl (Exception e), snd (on_llm_error e (h, w1)))))"

subsection \<open>Counting and the advancement guards\<close>

definition marker :: string where
  "marker = ''[STEP_COMPLETED]''"

definition common_phrases :: "string list" where
  "common_phrases = [''hi'', ''hello'', ''hey'', ''start'', ''begin'']"

text \<open>The counter of the current step goes up by one (an absent key counts from 0).\<close>

definition track_interaction :: "session \<Rightarrow> world \<Rightarrow> world" where
  "track_interaction s0 w =
     (let si = step_interactions (session w);
          k = step_key (current_step_index s0);
          n = get_count si k + 1;
          w1 = w\<lparr>session := (session w)\<lparr>step_interactions := si(k \<mapsto> n)\<rparr>\<rparr>
      in logging INFO (''Step '' @ str (current_step_index s0) @ '' ('' @ current_step s0 @
                       '') interaction count: '' @ str n) w1)"

text \<open>The \<^verbatim>\<open>if\<close>/\<^verbatim>\<open>elif\<close> chain on the trimmed, lower-cased user message \<open>m\<close> and the
  count \<open>n\<close>: the value of \<^verbatim>\<open>skip_advancement\<close>, of \<^verbatim>\<open>advancement_reason\<close>, and the lines
  the chain logs.\<close>

definition guard_chain :: "string \<Rightarrow> int \<Rightarrow> bool \<times> string option \<times> (level \<times> string) list" where
  "guard_chain m n =
     (if m = ''/next'' \<or> contains m ''next step''
      then (False, Some ''user requested next step'', [(INFO, ''User requested to move to next step'')])
      else if n < 2
      then (True, Some (''insufficient interactions (only '' @ str n @ '')''),
            [(INFO, ''Preventing premature step advancement: only '' @ str n @ '' interactions'')])
      else if int (length m) < 10 \<and> m \<noteq> ''/next''
      then (True, Some ''message too short'', [])
      else (False, None, []))"

text \<open>The chain, then the greeting check that follows it as an \<^verbatim>\<open>if\<close> of its own.\<close>

definition advancement_guards :: "string \<Rightarrow> int \<Rightarrow> bool \<times> string option \<times> (level \<times> string) list" where
  "advancement_guards m n =
     (case guard_chain m n of
        (skip_advancement, advancement_reason, guard_logs) \<Rightarrow>
          if list_ex (\<lambda>phrase. phrase = m) common_phrases
          then (True, Some ''message contains only greeting'', guard_logs)
          else (skip_advancement, advancement_reason, guard_logs))"

subsection \<open>Committing an advance\<close>

definition step_advanced_text :: "string \<Rightarrow> string" where
  "step_advanced_text step = '' **Great job!** Moving to the next step: **'' @ step @ ''**''"

definition all_steps_complete_text :: string where
  "all_steps_complete_text =
     '' **Congratulations!** You've completed all steps of your elevator pitch. You can now upload your final pitch using `/upload` or continue refining it.''"

text \<open>The two \<^verbatim>\<open>try\<close> blocks around \<^verbatim>\<open>save_session_to_db\<close> in \<^verbatim>\<open>main\<close>: the session is
  saved with the count of the step as \<^verbatim>\<open>total_interactions\<close>; an exception is logged
  under \<open>label\<close>.\<close>

definition try_save_session :: "string \<Rightarrow> string \<Rightarrow> int \<Rightarrow> int \<Rightarrow> world \<Rightarrow> world" where
  "try_save_session label sid idx n w =
     (case save_session_to_db sid idx (Some n) None w of
        (Inr _, w') \<Rightarrow> w'
      | (Inl (Exception e), w') \<Rightarrow> logging ERROR (label @ e) w')"

text \<open>The lines under \<^verbatim>\<open>if not skip_advancement\<close>; \<open>n\<close> is
  \<^verbatim>\<open>step_interactions.get(current_step_key, 0)\<close>.\<close>

definition commit_advance :: "string \<Rightarrow> session \<Rightarrow> int \<Rightarrow> world \<Rightarrow> unit result \<times> world" where
  "commit_advance sid s0 n w =
     (let idx = current_step_index s0
      in if idx < total_steps s0 - 1 then
           (case getitem (pitch_steps s0) (idx + 1) of
              Inl e \<Rightarrow> (Inl e, w)
            | Inr step \<Rightarrow>
                (let w1 = w\<lparr>session := (session w)\<lparr>current_step_index := idx + 1, current_step := step\<rparr>\<rparr>;
                     w2 = try_save_session ''Error saving session after step completion: '' sid (idx + 1) n w1
                 in (Inr (), send (step_advanced_text step) w2)))
         else if idx = total_steps s0 - 1 then
           (let w1 = send all_steps_complete_text w
            in (Inr (), try_save_session ''Error saving session after completion: '' sid idx n w1))
         else (Inr (), w))"

text \<open>The block under \<^verbatim>\<open>if "[STEP_COMPLETED]" in ai_text and selected_agent == "mentor"\<close>.
  It returns the cleaned reply. Writing to \<^verbatim>\<open>callback.msg.content\<close> raises
  \<^verbatim>\<open>AttributeError\<close> when no message was created.\<close>

definition step_completed ::
  "string \<Rightarrow> session \<Rightarrow> string \<Rightarrow> stream_handler \<Rightarrow> world \<Rightarrow> string result \<times> world" where
  "step_completed sid s0 text h w =
     (let last_user_message = lower (strip text);
          w1 = logging INFO (''[STEP_COMPLETED] marker detected for student '' @ sid) w;
          interaction_count = get_count (step_interactions (session w1)) (step_key (current_step_index s0))
      in case advancement_guards last_user_message interaction_count of
           (skip_advancement, advancement_reason, guard_logs) \<Rightarrow>
             (let w2 = w1\<lparr>logs := logs w1 @ guard_logs\<rparr>;
                  w3 = (if skip_advancement
                        then logging INFO (''Skipping step advancement for student '' @ sid @ '': '' @
                                           (case advancement_reason of None \<Rightarrow> ''None'' | Some r \<Rightarrow> r)) w2
                        else logging INFO (''Step advancement approved for student '' @ sid @ '' with '' @
                                           str interaction_count @ '' interactions'') w2);
                  ai_text = replace (content h) marker []
              in case msg h of
                   None \<Rightarrow>
                     (Inl (Exception ([CHR 0x27] @ ''NoneType'' @ [CHR 0x27] @ '' object has no attribute '' @
                                      [CHR 0x27] @ ''content'' @ [CHR 0x27])), w3)
                 | Some _ \<Rightarrow>
                     (let w4 = show_reply ai_text w3
                      in if \<not> skip_advancement
                         then (case commit_advance sid s0 interaction_count w4 of
                                 (Inl e, w5) \<Rightarrow> (Inl e, w5)
                               | (Inr _, w5) \<Rightarrow> (Inr ai_text, w5))
                         else (Inr ai_text, w4))))"

subsection \<open>The handler\<close>

text \<open>The keys of \<^verbatim>\<open>PROMPTS\<close>; \<^verbatim>\<open>PROMPTS[selected_agent]\<close> raises \<^verbatim>\<open>KeyError\<close> for any other
  name, whose text is the quoted key.\<close>

definition known_agents :: "string list" where
  "known_agents = [''mentor'', ''peer'', ''progress'', ''eval'']"

definition update_memory :: "string \<Rightarrow> string \<Rightarrow> string \<Rightarrow> world \<Rightarrow> world" where
  "update_memory selected_agent text ai_text w =
     (let key = selected_agent @ ''_memory'';
          agent_memory = (case memory (session w) key of None \<Rightarrow> [] | Some ms \<Rightarrow> ms)
      in w\<lparr>session := (session w)\<lparr>memory := (memory (session w))
                (key \<mapsto> agent_memory @ [(Human, text), (AI, ai_text)])\<rparr>\<rparr>)"

text \<open>The \<^verbatim>\<open>try\<close> block around \<^verbatim>\<open>increment_interactions\<close> at the end of the handler.\<close>

definition try_increment_interactions :: "string \<Rightarrow> world \<Rightarrow> world" where
  "try_increment_interactions sid w =
     (case increment_interactions sid w of
        (Inr _, w') \<Rightarrow> w'
      | (Inl (Exception e), w') \<Rightarrow> logging ERROR (''Error incrementing interactions: '' @ e) w')"

text \<open>The \<^verbatim>\<open>try\<close> block of \<^verbatim>\<open>main\<close>. \<open>s0\<close> is the session as \<^verbatim>\<open>main\<close> read it into its
  local variables at entry. The metadata of the placeholder and the input handed to the
  chain reach only the language model, whose answer is a parameter here (\<open>reply_tokens\<close>,
  \<open>reply_error\<close>), so they have no counterpart.\<close>

definition main_body :: "env \<Rightarrow> string \<Rightarrow> session \<Rightarrow> string \<Rightarrow> world \<Rightarrow> unit result \<times> world" where
  "main_body env sid s0 text w =
     (let selected_agent = agent s0;
          w1 = show_reply [] w
      in if selected_agent \<notin> set known_agents
         then (Inl (Exception ([CHR 0x27] @ selected_agent @ [CHR 0x27])), w1)
         else
           (let w2 = logging INFO (''Sending to '' @ selected_agent @ '' agent'') w1
            in case ainvoke env w2 of
                 (Inl e, w3) \<Rightarrow> (Inl e, w3)
               | (Inr h, w3) \<Rightarrow>
                   (let w4 = (if selected_agent = ''mentor'' then track_interaction s0 w3 else w3)
                    in case (if contains (content h) marker \<and> selected_agent = ''mentor''
                             then step_completed sid s0 text h w4
                             else (Inr (content h), w4)) of
                         (Inl e, w5) \<Rightarrow> (Inl e, w5)
                       | (Inr ai_text, w5) \<Rightarrow>
                           (let w6 = update_memory selected_agent text ai_text w5
                            in (Inr (), try_increment_interactions sid w6)))))"

text \<open>The \<^verbatim>\<open>except Exception\<close> clause of \<^verbatim>\<open>main\<close>.\<close>

definition main_except :: "string \<Rightarrow> world \<Rightarrow> world" where
  "main_except error_msg w =
     (let w1 = logging ERROR ('' Error in message processing: '' @ error_msg) w;
          w2 = (if contains (lower error_msg) ''missing variables''
                then send '' **System Error**\<newline>\<newline>There was an issue with processing your message. This is likely due to a configuration problem.\<newline>\<newline>Please try refreshing the page and starting a new session.'' w1
                else if contains (lower error_msg) ''openai''
                then send '' **AI Service Error**\<newline>\<newline>There was an issue connecting to the AI service. Please try again in a moment.'' w1
                else send ''An error occurred while processing your message. Please try again or refresh the page if the issue persists.'' w1)
      in logging ERROR (''Detailed error: '' @ error_msg) w2)"

definition upload_prompt_text :: string where
  "upload_prompt_text = ''Please upload your pitch document (PDF or DOCX)''"

text \<open>\<^verbatim>\<open>main\<close>, the handler of one incoming message with content \<open>text\<close>.\<close>

definition main :: "env \<Rightarrow> string \<Rightarrow> world \<Rightarrow> unit result \<times> world" where
  "main env text w =
     (case student_id (session w) of
        None \<Rightarrow> (Inr (), send session_error_text w)
      | Some sid \<Rightarrow>
          if sid = [] then (Inr (), send session_error_text w)
          else if lower text = ''/progress'' then (Inr (), progress_check env sid w)
          else if lower text = ''/upload'' then
            (let w1 = send upload_prompt_text w
             in case upload env of
                  Some f \<Rightarrow> process_file env f w1
                | None \<Rightarrow>
                    (Inr (), send (''No file was uploaded. Try again with `/upload` command.\<newline>\<newline>IMPORTANT: Remember your Student ID: #'' @
                                   sid @ '' - you'll need it to identify your data after the experiment.'') w1))
          else if lower text \<in> set [''/mentor'', ''/peer'', ''/progress'', ''/eval'']
          then (Inr (), switch_agent sid text w)
          else (case main_body env sid (session w) text w of
                  (Inr u, w') \<Rightarrow> (Inr u, w')
                | (Inl (Exception e), w') \<Rightarrow> (Inr (), main_except e w')))"

text \<open>The worlds a conversation can be in: after \<^verbatim>\<open>start\<close>, and after any handled message.\<close>

inductive reachable :: "world \<Rightarrow> bool" where
  after_start: "10000000 \<le> rnd \<Longrightarrow> rnd \<le> 99999999 \<Longrightarrow> reachable (snd (start rnd w))"
| after_main: "reachable w \<Longrightarrow> reachable (snd (main env text w))"

section \<open>Reference readings used in the statements\<close>

text \<open>
  \<open>score_pattern s ds\<close>: the text \<open>s\<close> begins with an occurrence of the pattern of
  \<^verbatim>\<open>process_file\<close> whose group 1 is \<open>ds\<close>, said without reference to how a matcher
  finds it: \<^verbatim>\<open>S\<close> or \<^verbatim>\<open>s\<close>, \<^verbatim>\<open>core\<close>, one or more of colon and white space, one or two
  digits, white space, a slash, white space, \<^verbatim>\<open>10\<close>.
\<close>

definition score_pattern :: "string \<Rightarrow> string \<Rightarrow> bool" where
  "score_pattern s ds =
     (\<exists>c sep ws1 ws2 post.
        s = c # ''core'' @ sep @ ds @ ws1 @ ''/'' @ ws2 @ ''10'' @ post \<and>
        (c = CHR ''S'' \<or> c = CHR ''s'') \<and>
        sep \<noteq> [] \<and> list_all sep_char sep \<and>
        (length ds = 1 \<or> length ds = 2) \<and> list_all isdigit ds \<and>
        list_all isspace ws1 \<and> list_all isspace ws2)"

text \<open>
  The specification's wording of the score, taken literally: the first integer of one or
  two digits that stands immediately in front of \<^verbatim>\<open>/10\<close>; a label in front of it is
  allowed and not asked for. \<open>claimed_score\<close> follows these words, not the source.
\<close>

definition claimed_at :: "string \<Rightarrow> string option" where
  "claimed_at s =
     (case s of
        [] \<Rightarrow> None
      | d1 # r1 \<Rightarrow>
          if \<not> isdigit d1 then None
          else (case r1 of
                  [] \<Rightarrow> None
                | d2 # r2 \<Rightarrow>
                    if isdigit d2 \<and> startswith r2 ''/10'' then Some [d1, d2]
                    else if startswith (d2 # r2) ''/10'' then Some [d1]
                    else None))"

fun claimed_search :: "string \<Rightarrow> string option" where
  "claimed_search [] = None"
| "claimed_search (c # cs) =
     (case claimed_at (c # cs) of Some g \<Rightarrow> Some g | None \<Rightarrow> claimed_search cs)"

definition claimed_score :: "string \<Rightarrow> int option" where
  "claimed_score feedback = map_option int_of_digits (claimed_search feedback)"

section \<open>Example inputs\<close>

text \<open>Concrete values at which the theorems below are instantiated: a database that
  works, one that refuses connections, a world before \<^verbatim>\<open>start\<close> has run, and what
  arrives with one message when the completion service streams the given fragments.\<close>

definition healthy_store :: store where
  "healthy_store =
     \<lparr>database_url = Some ''postgresql://tutor'', connect_fault = None,
      execute_fault = (\<lambda>q. None), close_fault = None, executed = []\<rparr>"

definition unreachable_store :: store where
  "unreachable_store =
     \<lparr>database_url = Some ''postgresql://tutor'', connect_fault = Some ''connection refused'',
      execute_fault = (\<lambda>q. None), close_fault = None, executed = []\<rparr>"

definition fresh_world :: "store \<Rightarrow> world" where
  "fresh_world st =
     \<lparr>session = \<lparr>student_id = None, current_step_index = 0, current_step = [], agent = [],
                 pitch_steps = [], total_steps = 0, step_interactions = Map.empty,
                 memory = Map.empty\<rparr>,
      store = st, outbox = [], logs = []\<rparr>"

text \<open>\<open>mentor_world st i c\<close>: student 12345678 talks to the Mentor at step \<open>i\<close> and has
  sent \<open>c\<close> messages in that step so far; the database is \<open>st\<close>.\<close>

definition mentor_world :: "store \<Rightarrow> int \<Rightarrow> int \<Rightarrow> world" where
  "mentor_world st i c =
     \<lparr>session = \<lparr>student_id = Some ''12345678'', current_step_index = i,
                 current_step = all_pitch_steps ! nat i, agent = ''mentor'',
                 pitch_steps = all_pitch_steps, total_steps = 5,
                 step_interactions = [step_key i \<mapsto> c], memory = Map.empty\<rparr>,
      store = st, outbox = [], logs = []\<rparr>"

text \<open>Three uploads: a text file, a PDF the parser gives up on, a PDF of three pages
  with an empty one in the middle; and what arrives with a message when the student
  uploads \<open>f\<close> and the evaluator answers \<open>ev\<close>.\<close>

definition notes_txt :: cl_file where
  "notes_txt =
     \<lparr>name = ''notes.txt'', pdf_pages = Inl (Exception ''not a PDF''),
      docx_paragraphs = Inl (Exception ''not a DOCX'')\<rparr>"

definition broken_pdf :: cl_file where
  "broken_pdf =
     \<lparr>name = ''pitch.pdf'', pdf_pages = Inl (Exception ''EOF marker not found''),
      docx_paragraphs = Inl (Exception ''not a DOCX'')\<rparr>"

definition pitch_pdf :: cl_file where
  "pitch_pdf =
     \<lparr>name = ''pitch.pdf'', pdf_pages = Inr [''We help students.'', [], ''Join us.''],
      docx_paragraphs = Inl (Exception ''not a DOCX'')\<rparr>"

definition uploading :: "cl_file \<Rightarrow> (string \<Rightarrow> string result) \<Rightarrow> env" where
  "uploading f ev =
     \<lparr>elapsed = ''0.0'', reply_tokens = [], reply_error = None, upload = Some f,
      evaluator = ev\<rparr>"

definition streaming :: "string list \<Rightarrow> env" where
  "streaming toks =
     \<lparr>elapsed = ''0.0'', reply_tokens = toks, reply_error = None, upload = None,
      evaluator = (\<lambda>pitch. Inl (Exception ''not asked''))\<rparr>"

text \<open>What arrives with a message when the completion service streams nothing and the
  call ends with the error \<open>e\<close>.\<close>

definition failing :: "string \<Rightarrow> env" where
  "failing e =
     \<lparr>elapsed = ''0.0'', reply_tokens = [], reply_error = Some e, upload = None,
      evaluator = (\<lambda>pitch. Inl (Exception ''not asked''))\<rparr>"

section \<open>Evaluation rules and frame lemmas\<close>

lemmas str_eval =
  lower_def lower_char_def upper_char_def capitalize_def strip_def isspace_def isdigit_def
  startswith_def endswith_def char_of_def bit_Suc_0_iff str_def digits.simps
  int_of_digits_def digit_val_def

lemma send_simps [simp]:
  "session (send c w) = session w" "store (send c w) = store w"
  "outbox (send c w) = outbox w @ [Sent c]" "logs (send c w) = logs w"
  by (simp_all add: send_def)

lemma show_reply_simps [simp]:
  "session (show_reply c w) = session w" "store (show_reply c w) = store w"
  "outbox (show_reply c w) = outbox w @ [Reply c]" "logs (show_reply c w) = logs w"
  by (simp_all add: show_reply_def)

lemma logging_simps [simp]:
  "session (logging l m w) = session w" "store (logging l m w) = store w"
  "outbox (logging l m w) = outbox w" "logs (logging l m w) = logs w @ [(l, m)]"
  by (simp_all add: logging_def)

lemma notifications_append [simp]:
  "notifications (es @ fs) = notifications es @ notifications fs"
  by (induction es rule: notifications.induct) simp_all

lemma displayed_append_Reply [simp]: "displayed (es @ [Reply c]) = Some c"
  by (induction es rule: displayed.induct) simp_all

lemma displayed_append_Sent [simp]: "displayed (es @ [Sent c]) = displayed es"
  by (induction es rule: displayed.induct) simp_all

subsection \<open>The store operations leave session and outbox alone and never raise\<close>

lemma connect_cases:
  "connect w = (r, w1) \<Longrightarrow>
     session w1 = session w \<and> outbox w1 = outbox w \<and> store w1 = store w \<and>
     (r = Inr False \<and> \<not> truthy (database_url (store w)) \<and>
        logs w1 = logs w @ [(ERROR, ''DATABASE_URL environment variable not set'')] \<or>
      (\<exists>e. r = Inl (Exception e) \<and> truthy (database_url (store w)) \<and>
        connect_fault (store w) = Some e \<and> w1 = w) \<or>
      r = Inr True \<and> truthy (database_url (store w)) \<and> connect_fault (store w) = None \<and>
        logs w1 = logs w @ [(INFO, ''Connected to database successfully'')])"
  by (auto simp: connect_def split: if_splits option.splits)

lemma save_session_body_frame:
  "session (snd (save_session_body sid idx ti lm w)) = session w"
  "outbox (snd (save_session_body sid idx ti lm w)) = outbox w"
  by (auto simp: save_session_body_def connect_def execute_def close_def
      split: option.splits sum.splits prod.splits bool.splits)

lemma save_session_to_db_frame:
  "session (snd (save_session_to_db sid idx ti lm w)) = session w"
  "outbox (snd (save_session_to_db sid idx ti lm w)) = outbox w"
  using save_session_body_frame[of sid idx ti lm w]
  by (auto simp: save_session_to_db_def split: prod.splits sum.splits exn.splits)

lemma save_session_to_db_frameD:
  "save_session_to_db sid idx ti lm w = (r, w') \<Longrightarrow>
     session w' = session w \<and> outbox w' = outbox w \<and> (\<exists>b. r = Inr b)"
  using save_session_to_db_frame[of sid idx ti lm w]
  by (auto simp: save_session_to_db_def split: prod.splits sum.splits exn.splits)

lemma increment_body_frame:
  "session (snd (increment_body sid w)) = session w"
  "outbox (snd (increment_body sid w)) = outbox w"
  by (auto simp: increment_body_def connect_def execute_def close_def
      split: option.splits sum.splits prod.splits bool.splits)

lemma increment_interactions_frameD:
  "increment_interactions sid w = (r, w') \<Longrightarrow>
     session w' = session w \<and> outbox w' = outbox w \<and> (\<exists>b. r = Inr b)"
  using increment_body_frame[of sid w]
  by (auto simp: increment_interactions_def split: prod.splits sum.splits exn.splits)

lemma save_pitch_body_frame:
  "session (snd (save_pitch_body sid st sc fb w)) = session w"
  "outbox (snd (save_pitch_body sid st sc fb w)) = outbox w"
  by (auto simp: save_pitch_body_def connect_def execute_def close_def
      split: option.splits sum.splits prod.splits bool.splits)

lemma save_pitch_evaluation_frameD:
  "save_pitch_evaluation sid st sc fb w = (r, w') \<Longrightarrow>
     session w' = session w \<and> outbox w' = outbox w \<and> (\<exists>b. r = Inr b)"
  using save_pitch_body_frame[of sid st sc fb w]
  by (auto simp: save_pitch_evaluation_def split: prod.splits sum.splits exn.splits)

subsection \<open>Streaming\<close>

lemma stream_fold:
  "foldl (\<lambda>hw token. on_llm_new_token token hw) (h, w) toks = (h', w') \<Longrightarrow>
     content h' = content h @ concat toks \<and> session w' = session w \<and> store w' = store w \<and>
     logs w' = logs w \<and> (msg h' = None \<longleftrightarrow> msg h = None \<and> toks = []) \<and>
     notifications (outbox w') = notifications (outbox w)"
proof (induction toks arbitrary: h w)
  case Nil
  then show ?case by simp
next
  case (Cons t ts)
  obtain h1 w1 where st: "on_llm_new_token t (h, w) = (h1, w1)"
    by (cases "on_llm_new_token t (h, w)")
  have a: "content h1 = content h @ t \<and> session w1 = session w \<and> store w1 = store w \<and>
     logs w1 = logs w \<and> msg h1 \<noteq> None \<and> notifications (outbox w1) = notifications (outbox w)"
    using st by (auto simp: on_llm_new_token_def Let_def split: option.splits)
  from Cons.prems st have "foldl (\<lambda>hw token. on_llm_new_token token hw) (h1, w1) ts = (h', w')"
    by simp
  from Cons.IH[OF this] a show ?case by simp
qed

lemma ainvoke_frameD:
  assumes "ainvoke env w = (r, w')"
  shows "session w' = session w \<and> store w' = store w \<and> logs w' = logs w \<and>
         notifications (outbox w') = notifications (outbox w)"
proof -
  obtain h w1 where f: "foldl (\<lambda>hw token. on_llm_new_token token hw) (\<lparr>content = [], msg = None\<rparr>, w) (reply_tokens env) = (h, w1)"
    by (cases "foldl (\<lambda>hw token. on_llm_new_token token hw) (\<lparr>content = [], msg = None\<rparr>, w) (reply_tokens env)")
  from stream_fold[OF f] f assms show ?thesis
    by (auto simp: ainvoke_def on_llm_error_def Let_def split: option.splits)
qed

lemma ainvoke_ok:
  assumes "ainvoke env w = (Inr h, w')"
  shows "reply_error env = None \<and> content h = concat (reply_tokens env) \<and>
         (msg h = None \<longleftrightarrow> reply_tokens env = [])"
proof -
  obtain h0 w0 where f: "foldl (\<lambda>hw token. on_llm_new_token token hw) (\<lparr>content = [], msg = None\<rparr>, w) (reply_tokens env) = (h0, w0)"
    by (cases "foldl (\<lambda>hw token. on_llm_new_token token hw) (\<lparr>content = [], msg = None\<rparr>, w) (reply_tokens env)")
  from assms f have "reply_error env = None \<and> h = h0"
    by (auto simp: ainvoke_def split: option.splits)
  with stream_fold[OF f] show ?thesis by simp
qed

lemma ainvoke_raises:
  "ainvoke env w = (Inl e, w') \<Longrightarrow> reply_error env \<noteq> None"
  by (auto simp: ainvoke_def split: option.splits prod.splits)

lemma ainvoke_succeeds:
  "reply_error env = None \<Longrightarrow> \<exists>h w'. ainvoke env w = (Inr h, w')"
  by (auto simp: ainvoke_def split: option.splits prod.splits)

lemma marker_needs_text: "contains (concat toks) marker \<Longrightarrow> toks \<noteq> []"
  by (auto simp: marker_def)


subsection \<open>The guarded store calls of the handler\<close>

lemma try_save_session_frame [simp]:
  "session (try_save_session label sid idx n w) = session w"
  "outbox (try_save_session label sid idx n w) = outbox w"
  by (auto simp: try_save_session_def split: prod.splits sum.splits exn.splits
      dest: save_session_to_db_frameD)

lemma try_increment_interactions_frame [simp]:
  "session (try_increment_interactions sid w) = session w"
  "outbox (try_increment_interactions sid w) = outbox w"
  by (auto simp: try_increment_interactions_def split: prod.splits sum.splits exn.splits
      dest: increment_interactions_frameD)

lemma save_session_to_db_result:
  "fst (save_session_to_db sid idx ti lm w) =
     Inr (truthy (database_url (store w)) \<and> connect_fault (store w) = None \<and>
          execute_fault (store w) (UpsertSession sid idx ti lm) = None \<and>
          close_fault (store w) = None)"
  by (auto simp: save_session_to_db_def save_session_body_def connect_def execute_def close_def
      split: option.splits)

lemma save_pitch_evaluation_result:
  "fst (save_pitch_evaluation sid st sc fb w) =
     Inr (truthy (database_url (store w)) \<and> connect_fault (store w) = None \<and>
          execute_fault (store w) (InsertEvaluation sid st sc fb) = None \<and>
          execute_fault (store w) (IncrCompletedSteps sid) = None \<and>
          close_fault (store w) = None)"
  by (auto simp: save_pitch_evaluation_def save_pitch_body_def connect_def execute_def close_def
      split: option.splits)

lemma increment_interactions_result:
  "fst (increment_interactions sid w) =
     Inr (truthy (database_url (store w)) \<and> connect_fault (store w) = None \<and>
          execute_fault (store w) (IncrTotalInteractions sid) = None \<and>
          close_fault (store w) = None)"
  by (auto simp: increment_interactions_def increment_body_def connect_def execute_def close_def
      split: option.splits)

lemma try_save_session_unreachable:
  "truthy (database_url (store w)) \<Longrightarrow> connect_fault (store w) = Some e \<Longrightarrow>
     try_save_session label sid idx n w = logging ERROR (''Error saving session: '' @ e) w"
  by (simp add: try_save_session_def save_session_to_db_def save_session_body_def connect_def)

lemma try_increment_interactions_unreachable:
  "truthy (database_url (store w)) \<Longrightarrow> connect_fault (store w) = Some e \<Longrightarrow>
     try_increment_interactions sid w = logging ERROR (''Error incrementing interactions: '' @ e) w"
  by (simp add: try_increment_interactions_def increment_interactions_def increment_body_def connect_def)

lemma try_save_session_logs: "\<exists>ls. logs (try_save_session label sid idx n w) = logs w @ ls"
  by (auto simp: try_save_session_def save_session_to_db_def save_session_body_def connect_def
      execute_def close_def split: option.splits)

lemma try_increment_interactions_logs: "\<exists>ls. logs (try_increment_interactions sid w) = logs w @ ls"
  by (auto simp: try_increment_interactions_def increment_interactions_def increment_body_def
      connect_def execute_def close_def split: option.splits)

lemma try_save_session_healthy:
  "truthy (database_url (store w)) \<Longrightarrow> connect_fault (store w) = None \<Longrightarrow>
   execute_fault (store w) (UpsertSession sid idx (Some n) None) = None \<Longrightarrow>
   close_fault (store w) = None \<Longrightarrow>
     executed (store (try_save_session label sid idx n w)) =
       executed (store w) @ [UpsertSession sid idx (Some n) None] \<and>
     database_url (store (try_save_session label sid idx n w)) = database_url (store w) \<and>
     connect_fault (store (try_save_session label sid idx n w)) = connect_fault (store w) \<and>
     execute_fault (store (try_save_session label sid idx n w)) = execute_fault (store w) \<and>
     close_fault (store (try_save_session label sid idx n w)) = close_fault (store w) \<and>
     logs (try_save_session label sid idx n w) =
       logs w @ [(INFO, ''Connected to database successfully''),
                 (INFO, ''Session saved for student '' @ sid)]"
  by (simp add: try_save_session_def save_session_to_db_def save_session_body_def connect_def
      execute_def close_def)

lemma try_increment_interactions_healthy:
  "truthy (database_url (store w)) \<Longrightarrow> connect_fault (store w) = None \<Longrightarrow>
   execute_fault (store w) (IncrTotalInteractions sid) = None \<Longrightarrow>
   close_fault (store w) = None \<Longrightarrow>
     executed (store (try_increment_interactions sid w)) =
       executed (store w) @ [IncrTotalInteractions sid]"
  by (simp add: try_increment_interactions_def increment_interactions_def increment_body_def
      connect_def execute_def close_def)

subsection \<open>The handler, step by step\<close>

lemma track_interaction_simps [simp]:
  "session (track_interaction s0 w) =
     (session w)\<lparr>step_interactions := (step_interactions (session w))
        (step_key (current_step_index s0) \<mapsto>
           get_count (step_interactions (session w)) (step_key (current_step_index s0)) + 1)\<rparr>"
  "store (track_interaction s0 w) = store w"
  "outbox (track_interaction s0 w) = outbox w"
  by (simp_all add: track_interaction_def Let_def)

lemma update_memory_simps [simp]:
  "student_id (session (update_memory a t x w)) = student_id (session w)"
  "current_step_index (session (update_memory a t x w)) = current_step_index (session w)"
  "current_step (session (update_memory a t x w)) = current_step (session w)"
  "agent (session (update_memory a t x w)) = agent (session w)"
  "pitch_steps (session (update_memory a t x w)) = pitch_steps (session w)"
  "total_steps (session (update_memory a t x w)) = total_steps (session w)"
  "step_interactions (session (update_memory a t x w)) = step_interactions (session w)"
  "store (update_memory a t x w) = store w"
  "outbox (update_memory a t x w) = outbox w"
  "logs (update_memory a t x w) = logs w"
  by (simp_all add: update_memory_def Let_def)

lemma main_except_simps [simp]:
  "session (main_except e w) = session w"
  "store (main_except e w) = store w"
  "displayed (outbox (main_except e w)) = displayed (outbox w)"
  by (simp_all add: main_except_def Let_def)

text \<open>The handler on a free-text Mentor message whose reply arrives with the marker.\<close>

lemma main_marker:
  assumes "student_id (session w) = Some sid" "sid \<noteq> []"
    and "lower text \<notin> set [''/progress'', ''/upload'', ''/mentor'', ''/peer'', ''/eval'']"
    and "agent (session w) = ''mentor''"
    and "reply_error env = None"
    and "contains (concat (reply_tokens env)) marker"
  shows "\<exists>h w3. ainvoke env (logging INFO ''Sending to mentor agent'' (show_reply [] w)) = (Inr h, w3) \<and>
           content h = concat (reply_tokens env) \<and> msg h \<noteq> None \<and>
           main env text w =
             (case step_completed sid (session w) text h (track_interaction (session w) w3) of
                (Inl (Exception e), w5) \<Rightarrow> (Inr (), main_except e w5)
              | (Inr ai_text, w5) \<Rightarrow>
                  (Inr (), try_increment_interactions sid (update_memory ''mentor'' text ai_text w5)))"
proof -
  obtain h w3 where a: "ainvoke env (logging INFO ''Sending to mentor agent'' (show_reply [] w)) = (Inr h, w3)"
    using ainvoke_succeeds[OF assms(5)] by blast
  from ainvoke_ok[OF a] marker_needs_text[OF assms(6)] assms(6)
  have b: "content h = concat (reply_tokens env)" "msg h \<noteq> None" "contains (content h) marker"
    by simp_all
  have "main env text w =
             (case step_completed sid (session w) text h (track_interaction (session w) w3) of
                (Inl (Exception e), w5) \<Rightarrow> (Inr (), main_except e w5)
              | (Inr ai_text, w5) \<Rightarrow>
                  (Inr (), try_increment_interactions sid (update_memory ''mentor'' text ai_text w5)))"
    using assms(1-4) a b(3)
    by (auto simp: main_def main_body_def Let_def known_agents_def
        split: sum.splits prod.splits exn.splits)
  with a b show ?thesis by blast
qed

lemma step_completed_decided:
  assumes "msg h \<noteq> None"
    and "n = get_count (step_interactions (session w)) (step_key (current_step_index s0))"
    and "g = advancement_guards (lower (strip text)) n"
    and "ai_text = replace (content h) marker []"
  shows "\<exists>w4. session w4 = session w \<and> store w4 = store w \<and>
           outbox w4 = outbox w @ [Reply ai_text] \<and>
           last (logs w4) =
             (INFO, if fst g
                    then ''Skipping step advancement for student '' @ sid @ '': '' @
                         (case fst (snd g) of None \<Rightarrow> ''None'' | Some r \<Rightarrow> r)
                    else ''Step advancement approved for student '' @ sid @ '' with '' @
                         str n @ '' interactions'') \<and>
           logs w4 \<noteq> [] \<and>
           step_completed sid s0 text h w =
             (if fst g then (Inr ai_text, w4)
              else (case commit_advance sid s0 n w4 of
                      (Inl e, w5) \<Rightarrow> (Inl e, w5)
                    | (Inr _, w5) \<Rightarrow> (Inr ai_text, w5)))"
proof -
  obtain skip reason glogs where g': "advancement_guards (lower (strip text)) n = (skip, reason, glogs)"
    by (cases "advancement_guards (lower (strip text)) n")
  obtain c where c: "msg h = Some c" using assms(1) by auto
  define w2 where "w2 = (logging INFO (''[STEP_COMPLETED] marker detected for student '' @ sid) w)
      \<lparr>logs := logs (logging INFO (''[STEP_COMPLETED] marker detected for student '' @ sid) w) @ glogs\<rparr>"
  show ?thesis
  proof (cases skip)
    case True
    let ?w4 = "show_reply (replace (content h) marker []) (logging INFO (''Skipping step advancement for student '' @ sid @ '': '' @
                         (case reason of None \<Rightarrow> ''None'' | Some r \<Rightarrow> r)) w2)"
    have "step_completed sid s0 text h w = (Inr (replace (content h) marker []), ?w4)"
      using True g' c assms(2) by (simp add: step_completed_def Let_def w2_def)
    moreover have "session ?w4 = session w" "store ?w4 = store w" "outbox ?w4 = outbox w @ [Reply (replace (content h) marker [])]"
      by (simp_all add: w2_def)
    moreover have "last (logs ?w4) = (INFO, ''Skipping step advancement for student '' @ sid @ '': '' @
                         (case reason of None \<Rightarrow> ''None'' | Some r \<Rightarrow> r))" "logs ?w4 \<noteq> []"
      by simp_all
    ultimately show ?thesis using True g' assms(3) unfolding assms(4) by (intro exI[of _ ?w4]) simp
  next
    case False
    let ?w4 = "show_reply (replace (content h) marker []) (logging INFO (''Step advancement approved for student '' @ sid @ '' with '' @
                         str n @ '' interactions'') w2)"
    have "step_completed sid s0 text h w =
        (case commit_advance sid s0 n ?w4 of
           (Inl e, w5) \<Rightarrow> (Inl e, w5)
         | (Inr _, w5) \<Rightarrow> (Inr (replace (content h) marker []), w5))"
      using False g' c assms(2) by (simp add: step_completed_def Let_def w2_def)
    moreover have "session ?w4 = session w" "store ?w4 = store w" "outbox ?w4 = outbox w @ [Reply (replace (content h) marker [])]"
      by (simp_all add: w2_def)
    moreover have "last (logs ?w4) = (INFO, ''Step advancement approved for student '' @ sid @ '' with '' @
                         str n @ '' interactions'')" "logs ?w4 \<noteq> []"
      by simp_all
    ultimately show ?thesis using False g' assms(3) unfolding assms(4) by (intro exI[of _ ?w4]) simp
  qed
qed

lemma get_count_upd [simp]: "get_count (d(k \<mapsto> v)) k = v"
  by (simp add: get_count_def)

lemma main_marker_decided:
  assumes "student_id (session w) = Some sid" "sid \<noteq> []"
    and "lower text \<notin> set [''/progress'', ''/upload'', ''/mentor'', ''/peer'', ''/eval'']"
    and "agent (session w) = ''mentor''"
    and "reply_error env = None"
    and "contains (concat (reply_tokens env)) marker"
    and "n = get_count (step_interactions (session w)) (step_key (current_step_index (session w))) + 1"
    and "g = advancement_guards (lower (strip text)) n"
    and "ai_text = replace (concat (reply_tokens env)) marker []"
  shows "\<exists>w4.
           session w4 = (session w)\<lparr>step_interactions :=
              (step_interactions (session w))(step_key (current_step_index (session w)) \<mapsto> n)\<rparr> \<and>
           store w4 = store w \<and>
           displayed (outbox w4) = Some ai_text \<and>
           notifications (outbox w4) = notifications (outbox w) \<and>
           last (logs w4) =
             (INFO, if fst g
                    then ''Skipping step advancement for student '' @ sid @ '': '' @
                         (case fst (snd g) of None \<Rightarrow> ''None'' | Some r \<Rightarrow> r)
                    else ''Step advancement approved for student '' @ sid @ '' with '' @
                         str n @ '' interactions'') \<and>
           logs w4 \<noteq> [] \<and>
           main env text w =
             (if fst g
              then (Inr (), try_increment_interactions sid (update_memory ''mentor'' text ai_text w4))
              else (case commit_advance sid (session w) n w4 of
                      (Inl (Exception e), w5) \<Rightarrow> (Inr (), main_except e w5)
                    | (Inr _, w5) \<Rightarrow>
                        (Inr (), try_increment_interactions sid (update_memory ''mentor'' text ai_text w5))))"
proof -
  from main_marker[OF assms(1-6)] obtain h w3 where
    a: "ainvoke env (logging INFO ''Sending to mentor agent'' (show_reply [] w)) = (Inr h, w3)"
    and h: "content h = concat (reply_tokens env)" "msg h \<noteq> None"
    and m: "main env text w =
             (case step_completed sid (session w) text h (track_interaction (session w) w3) of
                (Inl (Exception e), w5) \<Rightarrow> (Inr (), main_except e w5)
              | (Inr ai_text, w5) \<Rightarrow>
                  (Inr (), try_increment_interactions sid (update_memory ''mentor'' text ai_text w5)))"
    by blast
  from ainvoke_frameD[OF a] have f: "session w3 = session w" "store w3 = store w"
    "notifications (outbox w3) = notifications (outbox w)" by simp_all
  have n: "n = get_count (step_interactions (session (track_interaction (session w) w3)))
                 (step_key (current_step_index (session w)))"
    using assms(7) f(1) by simp
  have ai: "ai_text = replace (content h) marker []" using assms(9) h(1) by simp
  from step_completed_decided[OF h(2) n assms(8) ai, of sid] obtain w4 where
    w4: "session w4 = session (track_interaction (session w) w3)"
        "store w4 = store (track_interaction (session w) w3)"
        "outbox w4 = outbox (track_interaction (session w) w3) @ [Reply ai_text]"
        "last (logs w4) =
             (INFO, if fst g
                    then ''Skipping step advancement for student '' @ sid @ '': '' @
                         (case fst (snd g) of None \<Rightarrow> ''None'' | Some r \<Rightarrow> r)
                    else ''Step advancement approved for student '' @ sid @ '' with '' @
                         str n @ '' interactions'')"
        "logs w4 \<noteq> []"
    and sc: "step_completed sid (session w) text h (track_interaction (session w) w3) =
             (if fst g then (Inr ai_text, w4)
              else (case commit_advance sid (session w) n w4 of
                      (Inl e, w5) \<Rightarrow> (Inl e, w5)
                    | (Inr _, w5) \<Rightarrow> (Inr ai_text, w5)))"
    by blast
  have "main env text w =
             (if fst g
              then (Inr (), try_increment_interactions sid (update_memory ''mentor'' text ai_text w4))
              else (case commit_advance sid (session w) n w4 of
                      (Inl (Exception e), w5) \<Rightarrow> (Inr (), main_except e w5)
                    | (Inr _, w5) \<Rightarrow>
                        (Inr (), try_increment_interactions sid (update_memory ''mentor'' text ai_text w5))))"
    by (simp add: m sc split: prod.splits sum.splits exn.splits)
  moreover have "session w4 = (session w)\<lparr>step_interactions :=
              (step_interactions (session w))(step_key (current_step_index (session w)) \<mapsto> n)\<rparr>"
    using w4(1) f(1) assms(7) by simp
  moreover have "store w4 = store w" using w4(2) f(2) by simp
  moreover have "displayed (outbox w4) = Some ai_text" using w4(3) by simp
  moreover have "notifications (outbox w4) = notifications (outbox w)" using w4(3) f(3) by simp
  ultimately show ?thesis using w4(4,5) by blast
qed


lemma commit_advance_session:
  "commit_advance sid s0 n w = (r, w') \<Longrightarrow>
     session w' = session w \<or>
     (current_step_index s0 < total_steps s0 - 1 \<and> r = Inr () \<and>
      (\<exists>step. getitem (pitch_steps s0) (current_step_index s0 + 1) = Inr step \<and>
         session w' = (session w)\<lparr>current_step_index := current_step_index s0 + 1, current_step := step\<rparr>))"
  by (auto simp: commit_advance_def Let_def split: if_splits sum.splits)

lemma step_completed_session:
  "step_completed sid s0 text h w = (r, w') \<Longrightarrow>
     session w' = session w \<or>
     (current_step_index s0 < total_steps s0 - 1 \<and>
      (\<exists>step. getitem (pitch_steps s0) (current_step_index s0 + 1) = Inr step \<and>
         session w' = (session w)\<lparr>current_step_index := current_step_index s0 + 1, current_step := step\<rparr>))"
  by (auto simp: step_completed_def Let_def split: if_splits sum.splits prod.splits option.splits
      dest!: commit_advance_session)

lemma main_body_fields:
  assumes "main_body env sid s0 text w = (r, w')"
  shows "student_id (session w') = student_id (session w) \<and>
         pitch_steps (session w') = pitch_steps (session w) \<and>
         total_steps (session w') = total_steps (session w) \<and>
         (current_step_index (session w') = current_step_index (session w) \<and>
          current_step (session w') = current_step (session w) \<or>
          current_step_index s0 < total_steps s0 - 1 \<and>
          current_step_index (session w') = current_step_index s0 + 1 \<and>
          getitem (pitch_steps s0) (current_step_index s0 + 1) = Inr (current_step (session w')))"
  using assms
  by (auto simp: main_body_def Let_def
      split: if_splits sum.splits prod.splits exn.splits
      dest!: step_completed_session ainvoke_frameD)

lemma process_file_frame:
  "process_file env f w = (r, w') \<Longrightarrow> r = Inr () \<and> session w' = session w"
  by (auto simp: process_file_def extract_text_from_file_def extract_body_def evaluate_body_def
      evaluate_except_def Let_def
      split: sum.splits option.splits prod.splits exn.splits if_splits
      dest!: save_pitch_evaluation_frameD)

lemma main_session_step:
  assumes "main env text w = (r, w')"
  shows "r = Inr () \<and>
         student_id (session w') = student_id (session w) \<and>
         pitch_steps (session w') = pitch_steps (session w) \<and>
         total_steps (session w') = total_steps (session w) \<and>
         (current_step_index (session w') = current_step_index (session w) \<and>
          current_step (session w') = current_step (session w) \<or>
          current_step_index (session w) < total_steps (session w) - 1 \<and>
          current_step_index (session w') = current_step_index (session w) + 1 \<and>
          getitem (pitch_steps (session w)) (current_step_index (session w) + 1) =
            Inr (current_step (session w')))"
  using assms
  by (auto simp: main_def progress_check_def switch_agent_def Let_def
      split: option.splits if_splits sum.splits prod.splits exn.splits
      dest!: main_body_fields process_file_frame)

lemma digits_nonempty: "digits n \<noteq> []"
  by (subst digits.simps) simp

lemma str_nonempty: "str i \<noteq> []"
  by (simp add: str_def digits_nonempty)

lemma start_session:
  "start rnd w = (r, w') \<Longrightarrow>
     r = Inr () \<and> student_id (session w') = Some (str rnd) \<and>
     current_step_index (session w') = 0 \<and>
     current_step (session w') = ''Identify the Target Audience'' \<and>
     agent (session w') = ''mentor'' \<and> pitch_steps (session w') = all_pitch_steps \<and>
     total_steps (session w') = 5 \<and> step_interactions (session w') = Map.empty"
  by (auto simp: start_def Let_def all_pitch_steps_def
      split: prod.splits sum.splits exn.splits dest!: save_session_to_db_frameD)

lemma getitem_all_pitch_steps:
  "0 \<le> i \<Longrightarrow> i < 5 \<Longrightarrow> getitem all_pitch_steps i = Inr (all_pitch_steps ! nat i)"
  by (simp add: getitem_def all_pitch_steps_def)

lemma reachable_session:
  "reachable w \<Longrightarrow>
     (\<exists>sid. student_id (session w) = Some sid \<and> sid \<noteq> []) \<and>
     pitch_steps (session w) = all_pitch_steps \<and> total_steps (session w) = 5 \<and>
     0 \<le> current_step_index (session w) \<and> current_step_index (session w) \<le> 4 \<and>
     current_step (session w) = all_pitch_steps ! nat (current_step_index (session w))"
proof (induction rule: reachable.induct)
  case (after_start rnd w)
  obtain r w' where s: "start rnd w = (r, w')" by (cases "start rnd w")
  from start_session[OF s] s show ?case
    by (simp add: str_nonempty all_pitch_steps_def)
next
  case (after_main w0 e0 t0)
  obtain r w' where m: "main e0 t0 w0 = (r, w')" by (cases "main e0 t0 w0")
  from main_session_step[OF m] after_main.IH m show ?case
    by (auto simp: getitem_all_pitch_steps)
qed

subsection \<open>The guards and the three outcomes of a reply with the marker\<close>

lemma guards_explicit_next: "fst (advancement_guards ''/next'' n) = False"
  by (simp add: advancement_guards_def guard_chain_def common_phrases_def)

lemma main_marker_commit:
  assumes "student_id (session w) = Some sid" "sid \<noteq> []"
    and "lower text \<notin> set [''/progress'', ''/upload'', ''/mentor'', ''/peer'', ''/eval'']"
    and "agent (session w) = ''mentor''"
    and "reply_error env = None"
    and "contains (concat (reply_tokens env)) marker"
    and "n = get_count (step_interactions (session w)) (step_key (current_step_index (session w))) + 1"
    and "\<not> fst (advancement_guards (lower (strip text)) n)"
    and "current_step_index (session w) < total_steps (session w) - 1"
    and "getitem (pitch_steps (session w)) (current_step_index (session w) + 1) = Inr step"
  shows "\<exists>w4. store w4 = store w \<and>
           displayed (outbox w4) = Some (replace (concat (reply_tokens env)) marker []) \<and>
           notifications (outbox w4) = notifications (outbox w) \<and>
           last (logs w4) = (INFO, ''Step advancement approved for student '' @ sid @ '' with '' @
                                   str n @ '' interactions'') \<and> logs w4 \<noteq> [] \<and>
           session w4 = (session w)\<lparr>step_interactions :=
              (step_interactions (session w))(step_key (current_step_index (session w)) \<mapsto> n)\<rparr> \<and>
           main env text w =
             (Inr (), try_increment_interactions sid
                (update_memory ''mentor'' text (replace (concat (reply_tokens env)) marker [])
                   (send (step_advanced_text step)
                      (try_save_session ''Error saving session after step completion: '' sid
                         (current_step_index (session w) + 1) n
                         (w4\<lparr>session := (session w4)\<lparr>current_step_index := current_step_index (session w) + 1,
                                                       current_step := step\<rparr>\<rparr>)))))"
proof -
  from main_marker_decided[OF assms(1-7) refl refl] obtain w4 where
    w4: "session w4 = (session w)\<lparr>step_interactions :=
              (step_interactions (session w))(step_key (current_step_index (session w)) \<mapsto> n)\<rparr>"
      "store w4 = store w"
      "displayed (outbox w4) = Some (replace (concat (reply_tokens env)) marker [])"
      "notifications (outbox w4) = notifications (outbox w)"
      "last (logs w4) =
             (INFO, if fst (advancement_guards (lower (strip text)) n)
                    then ''Skipping step advancement for student '' @ sid @ '': '' @
                         (case fst (snd (advancement_guards (lower (strip text)) n)) of None \<Rightarrow> ''None'' | Some r \<Rightarrow> r)
                    else ''Step advancement approved for student '' @ sid @ '' with '' @
                         str n @ '' interactions'')"
      "logs w4 \<noteq> []"
    and m: "main env text w =
             (if fst (advancement_guards (lower (strip text)) n)
              then (Inr (), try_increment_interactions sid (update_memory ''mentor'' text (replace (concat (reply_tokens env)) marker []) w4))
              else (case commit_advance sid (session w) n w4 of
                      (Inl (Exception e), w5) \<Rightarrow> (Inr (), main_except e w5)
                    | (Inr _, w5) \<Rightarrow>
                        (Inr (), try_increment_interactions sid (update_memory ''mentor'' text (replace (concat (reply_tokens env)) marker []) w5))))"
    by blast
  have "main env text w =
             (Inr (), try_increment_interactions sid
                (update_memory ''mentor'' text (replace (concat (reply_tokens env)) marker [])
                   (send (step_advanced_text step)
                      (try_save_session ''Error saving session after step completion: '' sid
                         (current_step_index (session w) + 1) n
                         (w4\<lparr>session := (session w4)\<lparr>current_step_index := current_step_index (session w) + 1,
                                                       current_step := step\<rparr>\<rparr>)))))"
    using assms(8,9,10) by (simp add: m commit_advance_def Let_def)
  with w4 assms(8) show ?thesis by (intro exI[of _ w4]) simp
qed

lemma main_marker_terminal:
  assumes "student_id (session w) = Some sid" "sid \<noteq> []"
    and "lower text \<notin> set [''/progress'', ''/upload'', ''/mentor'', ''/peer'', ''/eval'']"
    and "agent (session w) = ''mentor''"
    and "reply_error env = None"
    and "contains (concat (reply_tokens env)) marker"
    and "n = get_count (step_interactions (session w)) (step_key (current_step_index (session w))) + 1"
    and "\<not> fst (advancement_guards (lower (strip text)) n)"
    and "current_step_index (session w) = total_steps (session w) - 1"
  shows "\<exists>w4. store w4 = store w \<and>
           displayed (outbox w4) = Some (replace (concat (reply_tokens env)) marker []) \<and>
           notifications (outbox w4) = notifications (outbox w) \<and>
           last (logs w4) = (INFO, ''Step advancement approved for student '' @ sid @ '' with '' @
                                   str n @ '' interactions'') \<and> logs w4 \<noteq> [] \<and>
           session w4 = (session w)\<lparr>step_interactions :=
              (step_interactions (session w))(step_key (current_step_index (session w)) \<mapsto> n)\<rparr> \<and>
           main env text w =
             (Inr (), try_increment_interactions sid
                (update_memory ''mentor'' text (replace (concat (reply_tokens env)) marker [])
                   (try_save_session ''Error saving session after completion: '' sid
                      (current_step_index (session w)) n
                      (send all_steps_complete_text w4))))"
proof -
  from main_marker_decided[OF assms(1-7) refl refl] obtain w4 where
    w4: "session w4 = (session w)\<lparr>step_interactions :=
              (step_interactions (session w))(step_key (current_step_index (session w)) \<mapsto> n)\<rparr>"
      "store w4 = store w"
      "displayed (outbox w4) = Some (replace (concat (reply_tokens env)) marker [])"
      "notifications (outbox w4) = notifications (outbox w)"
      "last (logs w4) =
             (INFO, if fst (advancement_guards (lower (strip text)) n)
                    then ''Skipping step advancement for student '' @ sid @ '': '' @
                         (case fst (snd (advancement_guards (lower (strip text)) n)) of None \<Rightarrow> ''None'' | Some r \<Rightarrow> r)
                    else ''Step advancement approved for student '' @ sid @ '' with '' @
                         str n @ '' interactions'')"
      "logs w4 \<noteq> []"
    and m: "main env text w =
             (if fst (advancement_guards (lower (strip text)) n)
              then (Inr (), try_increment_interactions sid (update_memory ''mentor'' text (replace (concat (reply_tokens env)) marker []) w4))
              else (case commit_advance sid (session w) n w4 of
                      (Inl (Exception e), w5) \<Rightarrow> (Inr (), main_except e w5)
                    | (Inr _, w5) \<Rightarrow>
                        (Inr (), try_increment_interactions sid (update_memory ''mentor'' text (replace (concat (reply_tokens env)) marker []) w5))))"
    by blast
  have "main env text w =
             (Inr (), try_increment_interactions sid
                (update_memory ''mentor'' text (replace (concat (reply_tokens env)) marker [])
                   (try_save_session ''Error saving session after completion: '' sid
                      (current_step_index (session w)) n
                      (send all_steps_complete_text w4))))"
    using assms(8,9) by (simp add: m commit_advance_def Let_def)
  with w4 assms(8) show ?thesis by (intro exI[of _ w4]) simp
qed

lemma main_marker_blocked:
  assumes "student_id (session w) = Some sid" "sid \<noteq> []"
    and "lower text \<notin> set [''/progress'', ''/upload'', ''/mentor'', ''/peer'', ''/eval'']"
    and "agent (session w) = ''mentor''"
    and "reply_error env = None"
    and "contains (concat (reply_tokens env)) marker"
    and "n = get_count (step_interactions (session w)) (step_key (current_step_index (session w))) + 1"
    and "fst (advancement_guards (lower (strip text)) n)"
  shows "\<exists>w4. store w4 = store w \<and>
           displayed (outbox w4) = Some (replace (concat (reply_tokens env)) marker []) \<and>
           notifications (outbox w4) = notifications (outbox w) \<and>
           last (logs w4) = (INFO, ''Skipping step advancement for student '' @ sid @ '': '' @
                         (case fst (snd (advancement_guards (lower (strip text)) n)) of
                            None \<Rightarrow> ''None'' | Some r \<Rightarrow> r)) \<and> logs w4 \<noteq> [] \<and>
           session w4 = (session w)\<lparr>step_interactions :=
              (step_interactions (session w))(step_key (current_step_index (session w)) \<mapsto> n)\<rparr> \<and>
           main env text w =
             (Inr (), try_increment_interactions sid
                (update_memory ''mentor'' text (replace (concat (reply_tokens env)) marker []) w4))"
proof -
  from main_marker_decided[OF assms(1-7) refl refl] obtain w4 where
    w4: "session w4 = (session w)\<lparr>step_interactions :=
              (step_interactions (session w))(step_key (current_step_index (session w)) \<mapsto> n)\<rparr>"
      "store w4 = store w"
      "displayed (outbox w4) = Some (replace (concat (reply_tokens env)) marker [])"
      "notifications (outbox w4) = notifications (outbox w)"
      "last (logs w4) =
             (INFO, if fst (advancement_guards (lower (strip text)) n)
                    then ''Skipping step advancement for student '' @ sid @ '': '' @
                         (case fst (snd (advancement_guards (lower (strip text)) n)) of None \<Rightarrow> ''None'' | Some r \<Rightarrow> r)
                    else ''Step advancement approved for student '' @ sid @ '' with '' @
                         str n @ '' interactions'')"
      "logs w4 \<noteq> []"
    and m: "main env text w =
             (if fst (advancement_guards (lower (strip text)) n)
              then (Inr (), try_increment_interactions sid (update_memory ''mentor'' text (replace (concat (reply_tokens env)) marker []) w4))
              else (case commit_advance sid (session w) n w4 of
                      (Inl (Exception e), w5) \<Rightarrow> (Inr (), main_except e w5)
                    | (Inr _, w5) \<Rightarrow>
                        (Inr (), try_increment_interactions sid (update_memory ''mentor'' text (replace (concat (reply_tokens env)) marker []) w5))))"
    by blast
  from w4 m assms(8) show ?thesis by (intro exI[of _ w4]) simp
qed

lemma lower_strip_next: "lower (strip ''/next'') = ''/next''"
  by (simp add: str_eval)

lemma next_not_command:
  "lower ''/next'' \<notin> set [''/progress'', ''/upload'', ''/mentor'', ''/peer'', ''/eval'']"
  by (simp add: str_eval)

lemma try_increment_interactions_keeps_log:
  "x \<in> set (logs w) \<Longrightarrow> x \<in> set (logs (try_increment_interactions sid w))"
  using try_increment_interactions_logs[of sid w] by auto

lemma try_save_session_keeps_log:
  "x \<in> set (logs w) \<Longrightarrow> x \<in> set (logs (try_save_session label sid idx n w))"
  using try_save_session_logs[of label sid idx n w] by auto

lemma greeting_not_explicit:
  "list_ex (\<lambda>phrase. phrase = m) common_phrases \<Longrightarrow>
     m \<noteq> ''/next'' \<and> \<not> contains m ''next step'' \<and> int (length m) < 10"
  by (auto simp: common_phrases_def startswith_def)

lemma guards_explicit:
  "m = ''/next'' \<or> contains m ''next step'' \<Longrightarrow>
     advancement_guards m n =
       (False, Some ''user requested next step'', [(INFO, ''User requested to move to next step'')])"
  using greeting_not_explicit[of m]
  by (auto simp: advancement_guards_def guard_chain_def)

lemma guards_minimum:
  "m \<noteq> ''/next'' \<Longrightarrow> \<not> contains m ''next step'' \<Longrightarrow> n < 2 \<Longrightarrow>
     fst (advancement_guards m n) \<and>
     fst (snd (advancement_guards m n)) =
       Some (if list_ex (\<lambda>phrase. phrase = m) common_phrases
             then ''message contains only greeting''
             else ''insufficient interactions (only '' @ str n @ '')'')"
  by (auto simp: advancement_guards_def guard_chain_def)

lemma main_blocked_outcome:
  assumes "student_id (session w) = Some sid" "sid \<noteq> []"
    and "lower text \<notin> set [''/progress'', ''/upload'', ''/mentor'', ''/peer'', ''/eval'']"
    and "agent (session w) = ''mentor''"
    and "reply_error env = None"
    and "contains (concat (reply_tokens env)) marker"
    and "n = get_count (step_interactions (session w)) (step_key (current_step_index (session w))) + 1"
    and "fst (advancement_guards (lower (strip text)) n)"
    and "main env text w = (r, w')"
  shows "r = Inr () \<and>
         current_step_index (session w') = current_step_index (session w) \<and>
         current_step (session w') = current_step (session w) \<and>
         step_interactions (session w') =
           (step_interactions (session w))(step_key (current_step_index (session w)) \<mapsto> n) \<and>
         displayed (outbox w') = Some (replace (concat (reply_tokens env)) marker []) \<and>
         notifications (outbox w') = notifications (outbox w) \<and>
         (INFO, ''Skipping step advancement for student '' @ sid @ '': '' @
                (case fst (snd (advancement_guards (lower (strip text)) n)) of
                   None \<Rightarrow> ''None'' | Some reason \<Rightarrow> reason)) \<in> set (logs w')"
proof -
  from main_marker_blocked[OF assms(1-8)] obtain w4 where
    w4: "displayed (outbox w4) = Some (replace (concat (reply_tokens env)) marker [])"
      "notifications (outbox w4) = notifications (outbox w)"
      "session w4 = (session w)\<lparr>step_interactions :=
              (step_interactions (session w))(step_key (current_step_index (session w)) \<mapsto> n)\<rparr>"
    and l: "last (logs w4) = (INFO, ''Skipping step advancement for student '' @ sid @ '': '' @
                (case fst (snd (advancement_guards (lower (strip text)) n)) of
                   None \<Rightarrow> ''None'' | Some reason \<Rightarrow> reason))" "logs w4 \<noteq> []"
    and mm: "main env text w =
             (Inr (), try_increment_interactions sid
                (update_memory ''mentor'' text (replace (concat (reply_tokens env)) marker []) w4))"
    by blast
  have "(INFO, ''Skipping step advancement for student '' @ sid @ '': '' @
                (case fst (snd (advancement_guards (lower (strip text)) n)) of
                   None \<Rightarrow> ''None'' | Some reason \<Rightarrow> reason)) \<in> set (logs w4)"
    using l last_in_set by metis
  then show ?thesis using assms(9) w4
    by (auto simp: mm try_increment_interactions_keeps_log)
qed

lemma main_commit_outcome:
  assumes "student_id (session w) = Some sid" "sid \<noteq> []"
    and "lower text \<notin> set [''/progress'', ''/upload'', ''/mentor'', ''/peer'', ''/eval'']"
    and "agent (session w) = ''mentor''"
    and "reply_error env = None"
    and "contains (concat (reply_tokens env)) marker"
    and "n = get_count (step_interactions (session w)) (step_key (current_step_index (session w))) + 1"
    and "\<not> fst (advancement_guards (lower (strip text)) n)"
    and "current_step_index (session w) < total_steps (session w) - 1"
    and "getitem (pitch_steps (session w)) (current_step_index (session w) + 1) = Inr step"
    and "main env text w = (r, w')"
  shows "r = Inr () \<and>
         current_step_index (session w') = current_step_index (session w) + 1 \<and>
         current_step (session w') = step \<and>
         step_interactions (session w') =
           (step_interactions (session w))(step_key (current_step_index (session w)) \<mapsto> n) \<and>
         displayed (outbox w') = Some (replace (concat (reply_tokens env)) marker []) \<and>
         notifications (outbox w') = notifications (outbox w) @ [step_advanced_text step] \<and>
         (INFO, ''Step advancement approved for student '' @ sid @ '' with '' @ str n @
                '' interactions'') \<in> set (logs w')"
proof -
  from main_marker_commit[OF assms(1-10)] obtain w4 where
    w4: "displayed (outbox w4) = Some (replace (concat (reply_tokens env)) marker [])"
      "notifications (outbox w4) = notifications (outbox w)"
      "session w4 = (session w)\<lparr>step_interactions :=
              (step_interactions (session w))(step_key (current_step_index (session w)) \<mapsto> n)\<rparr>"
    and l: "last (logs w4) = (INFO, ''Step advancement approved for student '' @ sid @ '' with '' @
                                   str n @ '' interactions'')" "logs w4 \<noteq> []"
    and mm: "main env text w =
             (Inr (), try_increment_interactions sid
                (update_memory ''mentor'' text (replace (concat (reply_tokens env)) marker [])
                   (send (step_advanced_text step)
                      (try_save_session ''Error saving session after step completion: '' sid
                         (current_step_index (session w) + 1) n
                         (w4\<lparr>session := (session w4)\<lparr>current_step_index := current_step_index (session w) + 1,
                                                       current_step := step\<rparr>\<rparr>)))))"
    by blast
  have "(INFO, ''Step advancement approved for student '' @ sid @ '' with '' @ str n @
                '' interactions'') \<in> set (logs w4)"
    using l last_in_set by metis
  then show ?thesis using assms(11) w4
    by (auto simp: mm try_increment_interactions_keeps_log try_save_session_keeps_log)
qed

lemma main_terminal_outcome:
  assumes "student_id (session w) = Some sid" "sid \<noteq> []"
    and "lower text \<notin> set [''/progress'', ''/upload'', ''/mentor'', ''/peer'', ''/eval'']"
    and "agent (session w) = ''mentor''"
    and "reply_error env = None"
    and "contains (concat (reply_tokens env)) marker"
    and "n = get_count (step_interactions (session w)) (step_key (current_step_index (session w))) + 1"
    and "\<not> fst (advancement_guards (lower (strip text)) n)"
    and "current_step_index (session w) = total_steps (session w) - 1"
    and "main env text w = (r, w')"
  shows "r = Inr () \<and>
         current_step_index (session w') = current_step_index (session w) \<and>
         current_step (session w') = current_step (session w) \<and>
         step_interactions (session w') =
           (step_interactions (session w))(step_key (current_step_index (session w)) \<mapsto> n) \<and>
         displayed (outbox w') = Some (replace (concat (reply_tokens env)) marker []) \<and>
         notifications (outbox w') = notifications (outbox w) @ [all_steps_complete_text] \<and>
         (INFO, ''Step advancement approved for student '' @ sid @ '' with '' @ str n @
                '' interactions'') \<in> set (logs w')"
proof -
  from main_marker_terminal[OF assms(1-9)] obtain w4 where
    w4: "displayed (outbox w4) = Some (replace (concat (reply_tokens env)) marker [])"
      "notifications (outbox w4) = notifications (outbox w)"
      "session w4 = (session w)\<lparr>step_interactions :=
              (step_interactions (session w))(step_key (current_step_index (session w)) \<mapsto> n)\<rparr>"
    and l: "last (logs w4) = (INFO, ''Step advancement approved for student '' @ sid @ '' with '' @
                                   str n @ '' interactions'')" "logs w4 \<noteq> []"
    and mm: "main env text w =
             (Inr (), try_increment_interactions sid
                (update_memory ''mentor'' text (replace (concat (reply_tokens env)) marker [])
                   (try_save_session ''Error saving session after completion: '' sid
                      (current_step_index (session w)) n
                      (send all_steps_complete_text w4))))"
    by blast
  have "(INFO, ''Step advancement approved for student '' @ sid @ '' with '' @ str n @
                '' interactions'') \<in> set (logs w4)"
    using l last_in_set by metis
  then show ?thesis using assms(10) w4
    by (auto simp: mm try_increment_interactions_keeps_log try_save_session_keeps_log)
qed

lemma main_terminal_store:
  assumes "student_id (session w) = Some sid" "sid \<noteq> []"
    and "lower text \<notin> set [''/progress'', ''/upload'', ''/mentor'', ''/peer'', ''/eval'']"
    and "agent (session w) = ''mentor''"
    and "reply_error env = None"
    and "contains (concat (reply_tokens env)) marker"
    and "n = get_count (step_interactions (session w)) (step_key (current_step_index (session w))) + 1"
    and "\<not> fst (advancement_guards (lower (strip text)) n)"
    and "current_step_index (session w) = total_steps (session w) - 1"
    and "truthy (database_url (store w))" "connect_fault (store w) = None"
    and "execute_fault (store w) (UpsertSession sid (current_step_index (session w)) (Some n) None) = None"
    and "execute_fault (store w) (IncrTotalInteractions sid) = None"
    and "close_fault (store w) = None"
  shows "executed (store (snd (main env text w))) =
           executed (store w) @ [UpsertSession sid (current_step_index (session w)) (Some n) None,
                                 IncrTotalInteractions sid]"
proof -
  from main_marker_terminal[OF assms(1-9)] obtain w4 where
    st: "store w4 = store w"
    and mm: "main env text w =
             (Inr (), try_increment_interactions sid
                (update_memory ''mentor'' text (replace (concat (reply_tokens env)) marker [])
                   (try_save_session ''Error saving session after completion: '' sid
                      (current_step_index (session w)) n
                      (send all_steps_complete_text w4))))"
    by blast
  let ?a = "send all_steps_complete_text w4"
  let ?b = "try_save_session ''Error saving session after completion: '' sid
              (current_step_index (session w)) n ?a"
  have a: "truthy (database_url (store ?a))" "connect_fault (store ?a) = None"
    "execute_fault (store ?a) (UpsertSession sid (current_step_index (session w)) (Some n) None) = None"
    "close_fault (store ?a) = None"
    using assms(10-14) st by simp_all
  note b = try_save_session_healthy[OF a, of "''Error saving session after completion: ''"]
  let ?c = "update_memory ''mentor'' text (replace (concat (reply_tokens env)) marker []) ?b"
  have c: "truthy (database_url (store ?c))" "connect_fault (store ?c) = None"
    "execute_fault (store ?c) (IncrTotalInteractions sid) = None"
    "close_fault (store ?c) = None"
    using b assms(10-14) st by simp_all
  from try_increment_interactions_healthy[OF c] b st show ?thesis
    by (simp add: mm)
qed

lemma notification_texts_differ: "all_steps_complete_text \<noteq> step_advanced_text step"
  by (simp add: all_steps_complete_text_def step_advanced_text_def)

lemma mentor_world_simps [simp]:
  "student_id (session (mentor_world st i c)) = Some ''12345678''"
  "current_step_index (session (mentor_world st i c)) = i"
  "current_step (session (mentor_world st i c)) = all_pitch_steps ! nat i"
  "agent (session (mentor_world st i c)) = ''mentor''"
  "pitch_steps (session (mentor_world st i c)) = all_pitch_steps"
  "total_steps (session (mentor_world st i c)) = 5"
  "step_interactions (session (mentor_world st i c)) = [step_key i \<mapsto> c]"
  "store (mentor_world st i c) = st"
  "outbox (mentor_world st i c) = []"
  "logs (mentor_world st i c) = []"
  by (simp_all add: mentor_world_def)

lemma healthy_store_simps [simp]:
  "truthy (database_url healthy_store)" "connect_fault healthy_store = None"
  "execute_fault healthy_store q = None" "close_fault healthy_store = None"
  "executed healthy_store = []"
  by (simp_all add: healthy_store_def truthy_def)

lemma unreachable_store_simps [simp]:
  "truthy (database_url unreachable_store)"
  "connect_fault unreachable_store = Some ''connection refused''"
  "executed unreachable_store = []"
  by (simp_all add: unreachable_store_def truthy_def)

lemma streaming_simps [simp]:
  "reply_error (streaming toks) = None" "reply_tokens (streaming toks) = toks"
  "upload (streaming toks) = None" "elapsed (streaming toks) = ''0.0''"
  by (simp_all add: streaming_def)

lemma main_commit_unreachable:
  assumes "student_id (session w) = Some sid" "sid \<noteq> []"
    and "lower text \<notin> set [''/progress'', ''/upload'', ''/mentor'', ''/peer'', ''/eval'']"
    and "agent (session w) = ''mentor''"
    and "reply_error env = None"
    and "contains (concat (reply_tokens env)) marker"
    and "n = get_count (step_interactions (session w)) (step_key (current_step_index (session w))) + 1"
    and "\<not> fst (advancement_guards (lower (strip text)) n)"
    and "current_step_index (session w) < total_steps (session w) - 1"
    and "getitem (pitch_steps (session w)) (current_step_index (session w) + 1) = Inr step"
    and "truthy (database_url (store w))" "connect_fault (store w) = Some e"
  shows "store (snd (main env text w)) = store w \<and>
         (ERROR, ''Error saving session: '' @ e) \<in> set (logs (snd (main env text w))) \<and>
         (ERROR, ''Error incrementing interactions: '' @ e) \<in> set (logs (snd (main env text w)))"
proof -
  from main_marker_commit[OF assms(1-10)] obtain w4 where
    st: "store w4 = store w"
    and mm: "main env text w =
             (Inr (), try_increment_interactions sid
                (update_memory ''mentor'' text (replace (concat (reply_tokens env)) marker [])
                   (send (step_advanced_text step)
                      (try_save_session ''Error saving session after step completion: '' sid
                         (current_step_index (session w) + 1) n
                         (w4\<lparr>session := (session w4)\<lparr>current_step_index := current_step_index (session w) + 1,
                                                       current_step := step\<rparr>\<rparr>)))))"
    by blast
  let ?a = "w4\<lparr>session := (session w4)\<lparr>current_step_index := current_step_index (session w) + 1,
                                             current_step := step\<rparr>\<rparr>"
  have a: "truthy (database_url (store ?a))" "connect_fault (store ?a) = Some e"
    using assms(11,12) st by simp_all
  note sv = try_save_session_unreachable[OF a, of "''Error saving session after step completion: ''" sid
      "current_step_index (session w) + 1" n]
  let ?c = "update_memory ''mentor'' text (replace (concat (reply_tokens env)) marker [])
              (send (step_advanced_text step) (logging ERROR (''Error saving session: '' @ e) ?a))"
  have c: "truthy (database_url (store ?c))" "connect_fault (store ?c) = Some e"
    using assms(11,12) st by simp_all
  note inc = try_increment_interactions_unreachable[OF c, of sid]
  show ?thesis unfolding mm sv inc using st by simp
qed

lemma commit_advance_frame:
  "commit_advance sid s0 n w = (r, w') \<Longrightarrow>
     step_interactions (session w') = step_interactions (session w) \<and>
     displayed (outbox w') = displayed (outbox w)"
  by (auto simp: commit_advance_def Let_def split: if_splits sum.splits)

lemma main_marker_displayed:
  assumes "student_id (session w) = Some sid" "sid \<noteq> []"
    and "lower text \<notin> set [''/progress'', ''/upload'', ''/mentor'', ''/peer'', ''/eval'']"
    and "agent (session w) = ''mentor''"
    and "reply_error env = None"
    and "contains (concat (reply_tokens env)) marker"
  shows "displayed (outbox (snd (main env text w))) = Some (replace (concat (reply_tokens env)) marker []) \<and>
         step_interactions (session (snd (main env text w))) =
           (step_interactions (session w))(step_key (current_step_index (session w)) \<mapsto>
              get_count (step_interactions (session w)) (step_key (current_step_index (session w))) + 1)"
proof -
  let ?n = "get_count (step_interactions (session w)) (step_key (current_step_index (session w))) + 1"
  from main_marker_decided[OF assms(1-6) refl refl refl] obtain w4 where
    w4: "displayed (outbox w4) = Some (replace (concat (reply_tokens env)) marker [])"
      "session w4 = (session w)\<lparr>step_interactions :=
              (step_interactions (session w))(step_key (current_step_index (session w)) \<mapsto> ?n)\<rparr>"
    and mm: "main env text w =
             (if fst (advancement_guards (lower (strip text)) ?n)
              then (Inr (), try_increment_interactions sid (update_memory ''mentor'' text (replace (concat (reply_tokens env)) marker []) w4))
              else (case commit_advance sid (session w) ?n w4 of
                      (Inl (Exception e), w5) \<Rightarrow> (Inr (), main_except e w5)
                    | (Inr _, w5) \<Rightarrow>
                        (Inr (), try_increment_interactions sid (update_memory ''mentor'' text (replace (concat (reply_tokens env)) marker []) w5))))"
    by blast
  obtain r5 w5 where ca: "commit_advance sid (session w) ?n w4 = (r5, w5)"
    by (cases "commit_advance sid (session w) ?n w4")
  from commit_advance_frame[OF ca] w4 ca show ?thesis
    by (auto simp: mm split: sum.splits exn.splits)
qed



lemma contains_length: "contains s sub \<Longrightarrow> length sub \<le> length s"
proof (induction s)
  case Nil
  then show ?case by simp
next
  case (Cons c cs)
  show ?case
  proof (cases "startswith (c # cs) sub")
    case True
    then have "length (take (length sub) (c # cs)) = length sub"
      by (simp only: startswith_def)
    then show ?thesis by (simp del: take_Suc_Cons)
  next
    case False
    with Cons show ?thesis by simp
  qed
qed

lemma length_strip: "length (strip s) \<le> length s"
proof -
  have "length (dropWhile isspace (rev (dropWhile isspace s))) \<le> length (rev (dropWhile isspace s))"
    by (rule length_dropWhile_le)
  also have "\<dots> \<le> length s" by (simp add: length_dropWhile_le)
  finally show ?thesis by (simp add: strip_def)
qed

lemma length_lower [simp]: "length (lower s) = length s"
  by (simp add: lower_def)

lemma short_message_no_request: "length s < 9 \<Longrightarrow> \<not> contains (lower (strip s)) ''next step''"
proof
  assume a: "length s < 9" and b: "contains (lower (strip s)) ''next step''"
  from contains_length[OF b] have "9 \<le> length (strip s)" by simp
  with length_strip[of s] a show False by simp
qed

lemma startswith_marker: "startswith (c # cs) marker \<Longrightarrow> c = CHR ''[''"
  by (simp add: startswith_def marker_def)

lemma replace_free: "CHR ''['' \<notin> set s \<Longrightarrow> replace s marker [] = s"
proof (induction s)
  case Nil
  then show ?case by simp
next
  case (Cons c cs)
  then have "\<not> startswith (c # cs) marker" using startswith_marker by auto
  with Cons show ?case by simp
qed

lemma replace_at_marker: "replace (marker @ post) marker [] = replace post marker []"
proof -
  have "marker @ post = CHR ''['' # ''STEP_COMPLETED]'' @ post" by (simp add: marker_def)
  moreover have "startswith (marker @ post) marker" by (simp add: startswith_def)
  moreover have "marker \<noteq> []" by (simp add: marker_def)
  ultimately have "replace (marker @ post) marker [] =
      [] @ replace (drop (length marker) (marker @ post)) marker []"
    by (metis replace.simps(2))
  then show ?thesis by simp
qed

lemma replace_first: "CHR ''['' \<notin> set pre \<Longrightarrow>
    replace (pre @ marker @ post) marker [] = pre @ replace post marker []"
proof (induction pre)
  case Nil
  then show ?case by (simp add: replace_at_marker)
next
  case (Cons c cs)
  then have "\<not> startswith (c # cs @ marker @ post) marker" using startswith_marker by auto
  with Cons show ?case by simp
qed

lemma replace_segments:
  "\<forall>seg \<in> set segs. CHR ''['' \<notin> set seg \<Longrightarrow> replace (join marker segs) marker [] = concat segs"
proof (induction segs rule: induct_list012)
  case 1
  then show ?case by simp
next
  case (2 x)
  then show ?case by (simp add: replace_free)
next
  case (3 x y zs)
  then show ?case by (simp add: replace_first)
qed

lemma main_progress:
  assumes "lower text = ''/progress''"
  shows "main env text w =
           (Inr (),
            send (case student_id (session w) of
                    None \<Rightarrow> session_error_text
                  | Some sid \<Rightarrow>
                      if sid = [] then session_error_text
                      else progress_text (elapsed env) sid (session w)
                             (get_count (step_interactions (session w))
                                (step_key (current_step_index (session w))))) w)"
  using assms by (simp add: main_def progress_check_def Let_def split: option.splits)

lemma endswith_txt:
  assumes "endswith s ''.txt''"
  shows "\<not> endswith s ''.pdf'' \<and> \<not> endswith s ''.docx''"
proof -
  from assms have t: "drop (length s - 4) s = ''.txt''"
    by (simp add: endswith_def eval_nat_numeral)
  have "\<not> endswith s ''.pdf''" using t by (simp add: endswith_def eval_nat_numeral)
  moreover have "\<not> endswith s ''.docx''"
  proof
    assume "endswith s ''.docx''"
    then have d: "5 \<le> length s" "drop (length s - 5) s = ''.docx''"
      by (simp_all add: endswith_def eval_nat_numeral)
    have "length s - 4 = 1 + (length s - 5)" using d(1) by simp
    then have "drop (length s - 4) s = drop 1 (drop (length s - 5) s)"
      by (simp only: drop_drop)
    with d(2) t show False by simp
  qed
  ultimately show ?thesis by simp
qed

lemma extract_unsupported:
  "\<not> endswith (name f) ''.pdf'' \<Longrightarrow> \<not> endswith (name f) ''.docx'' \<Longrightarrow>
     extract_text_from_file f w =
       (Inr None, logging WARNING ('' Unsupported file type: '' @ name f) w)"
  by (simp add: extract_text_from_file_def extract_body_def)

lemma extract_pdf_raises:
  "endswith (name f) ''.pdf'' \<Longrightarrow> pdf_pages f = Inl (Exception e) \<Longrightarrow>
     extract_text_from_file f w =
       (Inr None, logging ERROR ('' Error extracting text from '' @ name f @ '': '' @ e) w)"
  by (simp add: extract_text_from_file_def extract_body_def)

lemma extract_docx_raises:
  "\<not> endswith (name f) ''.pdf'' \<Longrightarrow> endswith (name f) ''.docx'' \<Longrightarrow>
   docx_paragraphs f = Inl (Exception e) \<Longrightarrow>
     extract_text_from_file f w =
       (Inr None, logging ERROR ('' Error extracting text from '' @ name f @ '': '' @ e) w)"
  by (simp add: extract_text_from_file_def extract_body_def)

lemma extract_pdf_ok:
  "endswith (name f) ''.pdf'' \<Longrightarrow> pdf_pages f = Inr pages \<Longrightarrow>
     extract_text_from_file f w = (Inr (Some (join ''\<newline>'' (filter (\<lambda>t. t \<noteq> []) pages))), w)"
  by (simp add: extract_text_from_file_def extract_body_def)

lemma extract_docx_ok:
  "\<not> endswith (name f) ''.pdf'' \<Longrightarrow> endswith (name f) ''.docx'' \<Longrightarrow>
   docx_paragraphs f = Inr paras \<Longrightarrow>
     extract_text_from_file f w = (Inr (Some (join ''\<newline>'' paras)), w)"
  by (simp add: extract_text_from_file_def extract_body_def)

lemma extract_never_raises: "\<exists>r. fst (extract_text_from_file f w) = Inr r"
  by (auto simp: extract_text_from_file_def split: prod.splits sum.splits exn.splits)

lemma main_upload_unsupported:
  assumes "student_id (session w) = Some sid" "sid \<noteq> []"
    and "lower text = ''/upload''" and "upload env = Some f"
    and "\<not> endswith (name f) ''.pdf''" "\<not> endswith (name f) ''.docx''"
  shows "main env text w =
           (Inr (), send extract_failed_text
                      (logging WARNING ('' Unsupported file type: '' @ name f)
                         (send upload_prompt_text w)))"
  using assms
  by (simp add: main_def process_file_def extract_unsupported Let_def)

lemma uploading_simps [simp]:
  "upload (uploading f ev) = Some f" "evaluator (uploading f ev) = ev"
  by (simp_all add: uploading_def)

subsection \<open>The score pattern\<close>

lemma digit_not_space: "isdigit d \<Longrightarrow> \<not> isspace d"
  by (auto simp: isdigit_def isspace_def)

lemma digit_not_slash: "isdigit d \<Longrightarrow> d \<noteq> CHR ''/''"
  by (auto simp: isdigit_def)

lemma digit_not_sep: "isdigit d \<Longrightarrow> \<not> sep_char d"
  by (auto simp: isdigit_def isspace_def sep_char_def)

lemma slash_not_space: "\<not> isspace CHR ''/''"
  by (simp add: isspace_def)

lemma one_not_space: "\<not> isspace CHR ''1''"
  by (simp add: isspace_def)

lemma dropWhile_all: "list_all P xs \<Longrightarrow> \<not> P y \<Longrightarrow> dropWhile P (xs @ y # ys) = y # ys"
  by (induction xs) simp_all

lemma takeWhile_all: "list_all P xs \<Longrightarrow> \<not> P y \<Longrightarrow> takeWhile P (xs @ y # ys) = xs"
  by (induction xs) simp_all

lemma list_all_takeWhile: "list_all P (takeWhile P xs)"
  by (induction xs) simp_all

lemma score_tail_iff:
  "score_tail r \<longleftrightarrow>
     (\<exists>ws1 ws2 post. r = ws1 @ ''/'' @ ws2 @ ''10'' @ post \<and> list_all isspace ws1 \<and> list_all isspace ws2)"
proof
  assume a: "score_tail r"
  then obtain r' where d: "dropWhile isspace r = CHR ''/'' # r'"
    and s: "startswith (dropWhile isspace r') ''10''"
    by (auto simp: score_tail_def split: list.splits)
  from s have "take 2 (dropWhile isspace r') = ''10''" by (simp add: startswith_def eval_nat_numeral)
  then have t: "dropWhile isspace r' = ''10'' @ drop 2 (dropWhile isspace r')"
    by (metis append_take_drop_id)
  have "r = takeWhile isspace r @ dropWhile isspace r" by simp
  also have "\<dots> = takeWhile isspace r @ ''/'' @ r'" using d by simp
  also have "r' = takeWhile isspace r' @ dropWhile isspace r'" by simp
  finally have "r = takeWhile isspace r @ ''/'' @ takeWhile isspace r' @ ''10'' @ drop 2 (dropWhile isspace r')"
    using t by simp
  then show "\<exists>ws1 ws2 post. r = ws1 @ ''/'' @ ws2 @ ''10'' @ post \<and> list_all isspace ws1 \<and> list_all isspace ws2"
    using list_all_takeWhile by blast
next
  assume "\<exists>ws1 ws2 post. r = ws1 @ ''/'' @ ws2 @ ''10'' @ post \<and> list_all isspace ws1 \<and> list_all isspace ws2"
  then obtain ws1 ws2 post where r: "r = ws1 @ ''/'' @ ws2 @ ''10'' @ post"
    and w: "list_all isspace ws1" "list_all isspace ws2" by blast
  have "dropWhile isspace r = CHR ''/'' # ws2 @ ''10'' @ post"
    using dropWhile_all[OF w(1) slash_not_space] r by simp
  moreover have "dropWhile isspace (ws2 @ ''10'' @ post) = ''10'' @ post"
    using dropWhile_all[OF w(2) one_not_space] by simp
  ultimately show "score_tail r" by (simp add: score_tail_def startswith_def)
qed

lemma digit_not_tail: "isdigit d \<Longrightarrow> \<not> score_tail (d # r)"
  by (simp add: score_tail_def digit_not_space digit_not_slash)

lemma score_digits_iff:
  "score_digits r = Some ds \<longleftrightarrow>
     ((length ds = 1 \<or> length ds = 2) \<and> list_all isdigit ds \<and>
      (\<exists>rest. r = ds @ rest \<and> score_tail rest))"
proof
  assume "score_digits r = Some ds"
  then show "(length ds = 1 \<or> length ds = 2) \<and> list_all isdigit ds \<and>
      (\<exists>rest. r = ds @ rest \<and> score_tail rest)"
    by (auto simp: score_digits_def split: list.splits if_splits)
next
  assume a: "(length ds = 1 \<or> length ds = 2) \<and> list_all isdigit ds \<and>
      (\<exists>rest. r = ds @ rest \<and> score_tail rest)"
  then obtain rest where r: "r = ds @ rest" and t: "score_tail rest" by blast
  from a consider (one) d1 where "ds = [d1]" "isdigit d1"
    | (two) d1 d2 where "ds = [d1, d2]" "isdigit d1" "isdigit d2"
    by (cases ds; cases "tl ds"; auto simp: length_Suc_conv)
  then show "score_digits r = Some ds"
  proof cases
    case one
    show ?thesis
    proof (cases rest)
      case Nil
      with one r t show ?thesis by (simp add: score_digits_def)
    next
      case (Cons d2 r2)
      with t digit_not_tail[of d2 r2] have "\<not> isdigit d2" by auto
      with one r t Cons show ?thesis by (simp add: score_digits_def)
    qed
  next
    case two
    with r t show ?thesis by (simp add: score_digits_def)
  qed
qed

lemma score_at_iff: "score_at s = Some ds \<longleftrightarrow> score_pattern s ds"
proof
  assume a: "score_at s = Some ds"
  then obtain c r where s: "s = c # r" and c: "c = CHR ''S'' \<or> c = CHR ''s''"
    and st: "startswith r ''core''"
    and sep: "takeWhile sep_char (drop 4 r) \<noteq> []"
    and sd: "score_digits (dropWhile sep_char (drop 4 r)) = Some ds"
    by (auto simp: score_at_def Let_def split: list.splits if_splits)
  from st have "take 4 r = ''core''" by (simp add: startswith_def eval_nat_numeral)
  then have r: "r = ''core'' @ drop 4 r" by (metis append_take_drop_id)
  from sd obtain rest where d: "(length ds = 1 \<or> length ds = 2)" "list_all isdigit ds"
    "dropWhile sep_char (drop 4 r) = ds @ rest" "score_tail rest"
    by (auto simp: score_digits_iff)
  from d(4) obtain ws1 ws2 post where t: "rest = ws1 @ ''/'' @ ws2 @ ''10'' @ post"
    "list_all isspace ws1" "list_all isspace ws2"
    by (auto simp: score_tail_iff)
  have "drop 4 r = takeWhile sep_char (drop 4 r) @ dropWhile sep_char (drop 4 r)" by simp
  then have "drop 4 r = takeWhile sep_char (drop 4 r) @ ds @ ws1 @ ''/'' @ ws2 @ ''10'' @ post"
    using d(3) t(1) by simp
  with r s have "s = c # ''core'' @ takeWhile sep_char (drop 4 r) @ ds @ ws1 @ ''/'' @ ws2 @ ''10'' @ post"
    by (metis append_Cons)
  with c sep d(1,2) t(2,3) list_all_takeWhile[of sep_char "drop 4 r"]
  show "score_pattern s ds" unfolding score_pattern_def by blast
next
  assume "score_pattern s ds"
  then obtain c sep ws1 ws2 post where
    s: "s = c # ''core'' @ sep @ ds @ ws1 @ ''/'' @ ws2 @ ''10'' @ post"
    and c: "c = CHR ''S'' \<or> c = CHR ''s''"
    and sep: "sep \<noteq> []" "list_all sep_char sep"
    and ds: "length ds = 1 \<or> length ds = 2" "list_all isdigit ds"
    and ws: "list_all isspace ws1" "list_all isspace ws2"
    unfolding score_pattern_def by blast
  from ds obtain d ds' where dd: "ds = d # ds'" "isdigit d" by (cases ds) auto
  let ?rest = "ws1 @ ''/'' @ ws2 @ ''10'' @ post"
  have tk: "takeWhile sep_char (sep @ ds @ ?rest) = sep"
    using takeWhile_all[OF sep(2) digit_not_sep[OF dd(2)]] dd(1) by simp
  have dk: "dropWhile sep_char (sep @ ds @ ?rest) = ds @ ?rest"
    using dropWhile_all[OF sep(2) digit_not_sep[OF dd(2)]] dd(1) by simp
  have tl: "score_tail ?rest" using ws by (auto simp: score_tail_iff)
  have "score_digits (ds @ ?rest) = Some ds"
    using ds tl by (auto simp: score_digits_iff)
  then show "score_at s = Some ds"
    using s c tk dk sep(1) by (auto simp: score_at_def startswith_def Let_def)
qed

lemma score_at_Nil [simp]: "score_at [] = None"
  by (simp add: score_at_def)

lemma score_search_iff:
  "score_search s = Some ds \<longleftrightarrow>
     (\<exists>pre rest. s = pre @ rest \<and> score_at rest = Some ds \<and>
        (\<forall>k < length pre. score_at (drop k s) = None))"
proof (induction s)
  case Nil
  then show ?case by simp
next
  case (Cons c cs)
  show ?case
  proof (cases "score_at (c # cs)")
    case (Some g)
    have "(\<exists>pre rest. c # cs = pre @ rest \<and> score_at rest = Some ds \<and>
        (\<forall>k < length pre. score_at (drop k (c # cs)) = None)) \<longleftrightarrow> g = ds"
    proof
      assume "\<exists>pre rest. c # cs = pre @ rest \<and> score_at rest = Some ds \<and>
        (\<forall>k < length pre. score_at (drop k (c # cs)) = None)"
      then obtain pre rest where p: "c # cs = pre @ rest" "score_at rest = Some ds"
        "\<forall>k < length pre. score_at (drop k (c # cs)) = None" by blast
      show "g = ds"
      proof (cases pre)
        case Nil
        with p Some show ?thesis by simp
      next
        case (Cons a as)
        with p(3) have "score_at (drop 0 (c # cs)) = None" by (metis length_greater_0_conv list.distinct(1))
        with Some show ?thesis by simp
      qed
    next
      assume "g = ds"
      with Some have "c # cs = [] @ (c # cs) \<and> score_at (c # cs) = Some ds \<and>
        (\<forall>k < length ([]::string). score_at (drop k (c # cs)) = None)" by simp
      then show "\<exists>pre rest. c # cs = pre @ rest \<and> score_at rest = Some ds \<and>
        (\<forall>k < length pre. score_at (drop k (c # cs)) = None)" by blast
    qed
    with Some show ?thesis by simp
  next
    case None
    have "(\<exists>pre rest. c # cs = pre @ rest \<and> score_at rest = Some ds \<and>
        (\<forall>k < length pre. score_at (drop k (c # cs)) = None)) \<longleftrightarrow>
          (\<exists>pre rest. cs = pre @ rest \<and> score_at rest = Some ds \<and>
        (\<forall>k < length pre. score_at (drop k cs) = None))"
    proof
      assume "\<exists>pre rest. c # cs = pre @ rest \<and> score_at rest = Some ds \<and>
        (\<forall>k < length pre. score_at (drop k (c # cs)) = None)"
      then obtain pre rest where p: "c # cs = pre @ rest" "score_at rest = Some ds"
        "\<forall>k < length pre. score_at (drop k (c # cs)) = None" by blast
      from p(1,2) None obtain as where as: "pre = c # as" by (cases pre) auto
      with p(1) have "cs = as @ rest" by simp
      moreover have "\<forall>k < length as. score_at (drop k cs) = None"
      proof (intro allI impI)
        fix k assume "k < length as"
        then have "Suc k < length pre" using as by simp
        with p(3) have "score_at (drop (Suc k) (c # cs)) = None" by blast
        then show "score_at (drop k cs) = None" by simp
      qed
      ultimately show "\<exists>pre rest. cs = pre @ rest \<and> score_at rest = Some ds \<and>
        (\<forall>k < length pre. score_at (drop k cs) = None)" using p(2) by blast
    next
      assume "\<exists>pre rest. cs = pre @ rest \<and> score_at rest = Some ds \<and>
        (\<forall>k < length pre. score_at (drop k cs) = None)"
      then obtain pre rest where p: "cs = pre @ rest" "score_at rest = Some ds"
        "\<forall>k < length pre. score_at (drop k cs) = None" by blast
      have "\<forall>k < length (c # pre). score_at (drop k (c # cs)) = None"
      proof (intro allI impI)
        fix k assume k: "k < length (c # pre)"
        show "score_at (drop k (c # cs)) = None"
        proof (cases k)
          case 0
          with None show ?thesis by simp
        next
          case (Suc j)
          with k p(3) show ?thesis by simp
        qed
      qed
      with p(1,2) have "c # cs = (c # pre) @ rest \<and> score_at rest = Some ds \<and>
        (\<forall>k < length (c # pre). score_at (drop k (c # cs)) = None)" by simp
      then show "\<exists>pre rest. c # cs = pre @ rest \<and> score_at rest = Some ds \<and>
        (\<forall>k < length pre. score_at (drop k (c # cs)) = None)" by blast
    qed
    with None Cons.IH show ?thesis by simp
  qed
qed

lemma score_search_None_iff:
  "score_search s = None \<longleftrightarrow> (\<forall>k. score_at (drop k s) = None)"
proof (induction s)
  case Nil
  then show ?case by simp
next
  case (Cons c cs)
  show ?case
  proof (cases "score_at (c # cs)")
    case (Some g)
    have "\<not> (\<forall>k. score_at (drop k (c # cs)) = None)"
    proof
      assume "\<forall>k. score_at (drop k (c # cs)) = None"
      then have "score_at (drop 0 (c # cs)) = None" by (rule spec)
      with Some show False by simp
    qed
    with Some show ?thesis by simp
  next
    case None
    have "(\<forall>k. score_at (drop k (c # cs)) = None) \<longleftrightarrow> (\<forall>k. score_at (drop k cs) = None)"
    proof
      assume a: "\<forall>k. score_at (drop k (c # cs)) = None"
      show "\<forall>k. score_at (drop k cs) = None"
      proof
        fix k from a have "score_at (drop (Suc k) (c # cs)) = None" by blast
        then show "score_at (drop k cs) = None" by simp
      qed
    next
      assume a: "\<forall>k. score_at (drop k cs) = None"
      show "\<forall>k. score_at (drop k (c # cs)) = None"
      proof
        fix k show "score_at (drop k (c # cs)) = None"
          using a None by (cases k) simp_all
      qed
    qed
    with None Cons.IH show ?thesis by simp
  qed
qed

lemma not_pattern_iff: "score_at s = None \<longleftrightarrow> (\<forall>ds. \<not> score_pattern s ds)"
  using score_at_iff[of s] by (cases "score_at s") auto

lemma digit_val_range: "isdigit d \<Longrightarrow> 0 \<le> digit_val d \<and> digit_val d \<le> 9"
  by (auto simp: isdigit_def digit_val_def)

lemma int_of_digits_range:
  assumes "length ds = 1 \<or> length ds = 2" and "list_all isdigit ds"
  shows "0 \<le> int_of_digits ds \<and> int_of_digits ds \<le> 99"
proof -
  from assms consider (one) d1 where "ds = [d1]" "isdigit d1"
    | (two) d1 d2 where "ds = [d1, d2]" "isdigit d1" "isdigit d2"
    by (cases ds; cases "tl ds"; auto simp: length_Suc_conv)
  then show ?thesis
  proof cases
    case one
    with digit_val_range[of d1] show ?thesis by (simp add: int_of_digits_def)
  next
    case two
    with digit_val_range[of d1] digit_val_range[of d2] show ?thesis
      by (simp add: int_of_digits_def)
  qed
qed

lemma score_pattern_digits:
  "score_pattern s ds \<Longrightarrow> (length ds = 1 \<or> length ds = 2) \<and> list_all isdigit ds"
  unfolding score_pattern_def by blast

lemma parse_score_Some_iff:
  "parse_score feedback = Some n \<longleftrightarrow>
     (\<exists>pre rest ds. feedback = pre @ rest \<and> score_pattern rest ds \<and> n = int_of_digits ds \<and>
        (\<forall>k < length pre. \<forall>ds'. \<not> score_pattern (drop k feedback) ds'))"
proof -
  have "parse_score feedback = Some n \<longleftrightarrow> (\<exists>ds. score_search feedback = Some ds \<and> n = int_of_digits ds)"
    by (auto simp: parse_score_def)
  also have "\<dots> \<longleftrightarrow> (\<exists>ds pre rest. feedback = pre @ rest \<and> score_at rest = Some ds \<and>
        (\<forall>k < length pre. score_at (drop k feedback) = None) \<and> n = int_of_digits ds)"
    unfolding score_search_iff by blast
  also have "\<dots> \<longleftrightarrow> (\<exists>pre rest ds. feedback = pre @ rest \<and> score_pattern rest ds \<and> n = int_of_digits ds \<and>
        (\<forall>k < length pre. \<forall>ds'. \<not> score_pattern (drop k feedback) ds'))"
    unfolding score_at_iff not_pattern_iff by blast
  finally show ?thesis .
qed

lemma parse_score_None_iff:
  "parse_score feedback = None \<longleftrightarrow> (\<forall>k ds. \<not> score_pattern (drop k feedback) ds)"
  by (simp add: parse_score_def score_search_None_iff not_pattern_iff)

lemma parse_score_range: "parse_score feedback = Some n \<Longrightarrow> 0 \<le> n \<and> n \<le> 99"
proof -
  assume "parse_score feedback = Some n"
  then obtain rest ds where "score_pattern rest ds" "n = int_of_digits ds"
    unfolding parse_score_Some_iff by blast
  with score_pattern_digits[of rest ds] int_of_digits_range[of ds] show ?thesis by simp
qed

lemmas score_eval =
  parse_score_def score_at_def score_digits_def score_tail_def sep_char_def isspace_def
  isdigit_def startswith_def int_of_digits_def digit_val_def

lemma scenario_e_score: "parse_score ''Great pitch! Score: 8/10. Needs tighter closing.'' = Some 8"
  by (simp add: score_eval)

lemma zero_is_not_absent: "parse_score ''Score: 0/10'' = Some 0"
  by (simp add: score_eval)

lemma no_score_is_absent: "parse_score ''Well structured, but no mark given.'' = None"
  by (simp add: score_eval)

lemma extract_frameD:
  "extract_text_from_file f w = (r, w1) \<Longrightarrow>
     session w1 = session w \<and> store w1 = store w \<and> outbox w1 = outbox w"
  by (auto simp: extract_text_from_file_def extract_body_def
      split: sum.splits prod.splits exn.splits if_splits)

lemma process_file_evaluates:
  assumes "student_id (session w) = Some sid" "sid \<noteq> []"
    and "extract_text_from_file f w = (Inr (Some pitch), w1)" "pitch \<noteq> []"
    and "evaluator env pitch = Inr feedback"
    and "truthy (database_url (store w))" "connect_fault (store w) = None"
    and "execute_fault (store w) (InsertEvaluation sid (current_step (session w)) (parse_score feedback) feedback) = None"
    and "execute_fault (store w) (IncrCompletedSteps sid) = None"
    and "close_fault (store w) = None"
  shows "fst (process_file env f w) = Inr () \<and>
         executed (store (snd (process_file env f w))) =
           executed (store w) @
             [InsertEvaluation sid (current_step (session w)) (parse_score feedback) feedback,
              IncrCompletedSteps sid] \<and>
         notifications (outbox (snd (process_file env f w))) =
           notifications (outbox w) @ ['' Evaluation Complete:\<newline>\<newline>'' @ feedback]"
proof -
  from extract_frameD[OF assms(3)]
  have f: "session w1 = session w" "store w1 = store w" "outbox w1 = outbox w" by simp_all
  show ?thesis
    using assms(1,2,4-10) f
    by (simp add: process_file_def assms(3) evaluate_body_def save_pitch_evaluation_def
        save_pitch_body_def connect_def execute_def close_def Let_def)
qed

lemma try_increment_interactions_log_tail:
  "store w' = store w \<Longrightarrow>
     logs (try_increment_interactions sid w') =
       logs w' @ drop (length (logs w)) (logs (try_increment_interactions sid w))"
  by (auto simp: try_increment_interactions_def increment_interactions_def increment_body_def
      connect_def execute_def close_def split: option.splits)

lemma track_interaction_logs:
  "logs (track_interaction s0 w) =
     logs w @ [(INFO, ''Step '' @ str (current_step_index s0) @ '' ('' @ current_step s0 @
                      '') interaction count: '' @
                      str (get_count (step_interactions (session w)) (step_key (current_step_index s0)) + 1))]"
  by (simp add: track_interaction_def Let_def)

lemma main_plain_reply_trace:
  assumes "student_id (session w) = Some sid" "sid \<noteq> []"
    and "lower t0 \<notin> set [''/progress'', ''/upload'', ''/mentor'', ''/peer'', ''/eval'']"
    and "agent (session w) = ''mentor''"
    and "reply_error env = None"
    and "\<not> contains (concat (reply_tokens env)) marker"
  shows "current_step_index (session (snd (main env t0 w))) = current_step_index (session w) \<and>
         current_step (session (snd (main env t0 w))) = current_step (session w) \<and>
         notifications (outbox (snd (main env t0 w))) = notifications (outbox w) \<and>
         logs (snd (main env t0 w)) =
           logs w @
           [(INFO, ''Sending to mentor agent''),
            (INFO, ''Step '' @ str (current_step_index (session w)) @ '' ('' @ current_step (session w) @
                   '') interaction count: '' @
                   str (get_count (step_interactions (session w))
                          (step_key (current_step_index (session w))) + 1))] @
           drop (length (logs w)) (logs (try_increment_interactions sid w))"
proof -
  obtain h w3 where a: "ainvoke env (logging INFO ''Sending to mentor agent'' (show_reply [] w)) = (Inr h, w3)"
    using ainvoke_succeeds[OF assms(5)] by blast
  from ainvoke_ok[OF a] assms(6) have b: "\<not> contains (content h) marker" by simp
  from ainvoke_frameD[OF a] have f: "session w3 = session w" "store w3 = store w"
    "logs w3 = logs w @ [(INFO, ''Sending to mentor agent'')]"
    "notifications (outbox w3) = notifications (outbox w)" by simp_all
  let ?w6 = "update_memory ''mentor'' t0 (content h) (track_interaction (session w) w3)"
  have mm: "main env t0 w = (Inr (), try_increment_interactions sid ?w6)"
    using assms(1-4) a b
    by (simp add: main_def main_body_def Let_def known_agents_def)
  have st: "store ?w6 = store w" using f by simp
  have lg: "logs ?w6 = logs w @
           [(INFO, ''Sending to mentor agent''),
            (INFO, ''Step '' @ str (current_step_index (session w)) @ '' ('' @ current_step (session w) @
                   '') interaction count: '' @
                   str (get_count (step_interactions (session w))
                          (step_key (current_step_index (session w))) + 1))]"
    using f by (simp add: track_interaction_logs)
  show ?thesis
    unfolding mm using f try_increment_interactions_log_tail[OF st, of sid] lg by simp
qed


lemma failing_simps [simp]:
  "reply_error (failing e) = Some e" "reply_tokens (failing e) = []"
  by (simp_all add: failing_def)

section \<open>The claims\<close>

text \<open>
  C1. One handled message never moves the step index by more than one step, and never
  backwards. In every world a conversation can reach the index lies between 0 and 4,
  before and after the message. When the advance is committed (a Mentor reply with the
  marker, the guards approve, index below 4), the index becomes exactly the old index
  plus one and the current step is the step of that name.
\<close>

theorem step_index_moves_by_one:
  "(current_step_index (session (snd (main env text w))) = current_step_index (session w) \<or>
    current_step_index (session (snd (main env text w))) = current_step_index (session w) + 1) \<and>
   (reachable w \<longrightarrow>
      0 \<le> current_step_index (session w) \<and> current_step_index (session w) \<le> 4 \<and>
      0 \<le> current_step_index (session (snd (main env text w))) \<and>
      current_step_index (session (snd (main env text w))) \<le> 4 \<and>
      (lower text \<notin> set [''/progress'', ''/upload'', ''/mentor'', ''/peer'', ''/eval''] \<and>
       agent (session w) = ''mentor'' \<and> reply_error env = None \<and>
       contains (concat (reply_tokens env)) marker \<and>
       \<not> fst (advancement_guards (lower (strip text))
                (get_count (step_interactions (session w))
                   (step_key (current_step_index (session w))) + 1)) \<and>
       current_step_index (session w) < 4 \<longrightarrow>
         current_step_index (session (snd (main env text w))) = current_step_index (session w) + 1 \<and>
         current_step (session (snd (main env text w))) =
           all_pitch_steps ! nat (current_step_index (session w) + 1)))"
proof -
  obtain r w' where m: "main env text w = (r, w')" by (cases "main env text w")
  have delta: "current_step_index (session w') = current_step_index (session w) \<or>
               current_step_index (session w') = current_step_index (session w) + 1"
    using main_session_step[OF m] by auto
  have inv: "0 \<le> current_step_index (session w) \<and> current_step_index (session w) \<le> 4 \<and>
             0 \<le> current_step_index (session w') \<and> current_step_index (session w') \<le> 4"
    if "reachable w"
  proof -
    have "reachable w'" using reachable.after_main[OF that, of env "text"] m by simp
    from reachable_session[OF that] reachable_session[OF this] show ?thesis by simp
  qed
  have commit: "current_step_index (session w') = current_step_index (session w) + 1 \<and>
         current_step (session w') = all_pitch_steps ! nat (current_step_index (session w) + 1)"
    if re: "reachable w"
      and c: "lower text \<notin> set [''/progress'', ''/upload'', ''/mentor'', ''/peer'', ''/eval'']"
        "agent (session w) = ''mentor''" "reply_error env = None"
        "contains (concat (reply_tokens env)) marker"
        "\<not> fst (advancement_guards (lower (strip text))
                (get_count (step_interactions (session w))
                   (step_key (current_step_index (session w))) + 1))"
        "current_step_index (session w) < 4"
  proof -
    from reachable_session[OF re] obtain sid where
      s: "student_id (session w) = Some sid" "sid \<noteq> []"
      and p: "pitch_steps (session w) = all_pitch_steps" "total_steps (session w) = 5"
        "0 \<le> current_step_index (session w)"
      by blast
    have lt: "current_step_index (session w) < total_steps (session w) - 1" using p c(6) by simp
    have gi: "getitem (pitch_steps (session w)) (current_step_index (session w) + 1) =
                Inr (all_pitch_steps ! nat (current_step_index (session w) + 1))"
      using p c(6) by (simp add: getitem_all_pitch_steps)
    from main_marker_commit[OF s c(1-4) refl c(5) lt gi] m show ?thesis
      by auto
  qed
  from delta inv commit m show ?thesis by simp
qed

text \<open>C1 at a concrete conversation: after \<^verbatim>\<open>start\<close> the index is 0; the student sends
  \<^verbatim>\<open>/next\<close>, the Mentor's reply carries the marker, and the index is 1.\<close>

theorem step_index_moves_by_one_witness:
  "reachable (snd (start 12345678 (fresh_world healthy_store))) \<and>
   current_step_index (session (snd (start 12345678 (fresh_world healthy_store)))) = 0 \<and>
   current_step_index (session (snd (main (streaming [''Well done. '', ''[STEP_COMPLETED]'']) ''/next''
      (snd (start 12345678 (fresh_world healthy_store)))))) = 1 \<and>
   current_step (session (snd (main (streaming [''Well done. '', ''[STEP_COMPLETED]'']) ''/next''
      (snd (start 12345678 (fresh_world healthy_store)))))) = ''Define the Problem/Need''"
proof -
  let ?w = "snd (start 12345678 (fresh_world healthy_store))"
  let ?env = "streaming [''Well done. '', ''[STEP_COMPLETED]'']"
  have r: "reachable ?w" by (rule reachable.after_start) simp_all
  obtain u w0 where s: "start 12345678 (fresh_world healthy_store) = (u, w0)"
    by (cases "start 12345678 (fresh_world healthy_store)")
  from start_session[OF s] have w0: "current_step_index (session w0) = 0"
    "agent (session w0) = ''mentor''" "step_interactions (session w0) = Map.empty"
    by simp_all
  have e: "reply_error ?env = None" "contains (concat (reply_tokens ?env)) marker"
    by (simp_all add: streaming_def marker_def startswith_def)
  have g: "\<not> fst (advancement_guards (lower (strip ''/next''))
                (get_count (step_interactions (session ?w))
                   (step_key (current_step_index (session ?w))) + 1))"
    by (simp add: lower_strip_next advancement_guards_def guard_chain_def common_phrases_def)
  from step_index_moves_by_one[of ?env "''/next''" ?w] r e g next_not_command w0 s
  show ?thesis by (simp add: all_pitch_steps_def)
qed

text \<open>
  C2 (amended). The Mentor's reply has arrived without an error. When it contains the
  marker: if the trimmed, lower-cased message is \<^verbatim>\<open>/next\<close> or contains \<^verbatim>\<open>next step\<close>, the
  guards approve whatever the count is, the approval is logged and, below the last step,
  the index advances. Otherwise, when the count of the step (the handled message
  included) is below 2, the index stays and the logged reason is
  \<^verbatim>\<open>insufficient interactions (only n)\<close>, unless the message is one of the greeting tokens:
  then the logged reason is \<^verbatim>\<open>message contains only greeting\<close>. When the reply does not
  contain the marker, no guard runs, whatever the message and the count are: index and
  step stay, no message of its own is sent, and the handler logs the agent line, the
  count line and what the closing call to the store logs, nothing else, so neither a
  guard's line nor a reason.
\<close>

theorem explicit_request_then_minimum_interactions:
  assumes "student_id (session w) = Some sid" and "sid \<noteq> []"
    and "lower text \<notin> set [''/progress'', ''/upload'', ''/mentor'', ''/peer'', ''/eval'']"
    and "agent (session w) = ''mentor''"
    and "reply_error env = None"
    and "n = get_count (step_interactions (session w)) (step_key (current_step_index (session w))) + 1"
    and "m = lower (strip text)"
  shows "(contains (concat (reply_tokens env)) marker \<longrightarrow>
           (m = ''/next'' \<or> contains m ''next step'' \<longrightarrow>
              (\<forall>k. advancement_guards m k =
                     (False, Some ''user requested next step'',
                      [(INFO, ''User requested to move to next step'')])) \<and>
              (INFO, ''Step advancement approved for student '' @ sid @ '' with '' @ str n @
                     '' interactions'') \<in> set (logs (snd (main env text w))) \<and>
              (current_step_index (session w) < total_steps (session w) - 1 \<and>
               getitem (pitch_steps (session w)) (current_step_index (session w) + 1) = Inr step \<longrightarrow>
                 current_step_index (session (snd (main env text w))) = current_step_index (session w) + 1 \<and>
                 current_step (session (snd (main env text w))) = step)) \<and>
           (m \<noteq> ''/next'' \<and> \<not> contains m ''next step'' \<and> n < 2 \<longrightarrow>
              current_step_index (session (snd (main env text w))) = current_step_index (session w) \<and>
              (INFO, ''Skipping step advancement for student '' @ sid @ '': '' @
                     (if list_ex (\<lambda>phrase. phrase = m) common_phrases
                      then ''message contains only greeting''
                      else ''insufficient interactions (only '' @ str n @ '')''))
                \<in> set (logs (snd (main env text w))))) \<and>
         (\<not> contains (concat (reply_tokens env)) marker \<longrightarrow>
            current_step_index (session (snd (main env text w))) = current_step_index (session w) \<and>
            current_step (session (snd (main env text w))) = current_step (session w) \<and>
            notifications (outbox (snd (main env text w))) = notifications (outbox w) \<and>
            logs (snd (main env text w)) =
              logs w @
              [(INFO, ''Sending to mentor agent''),
               (INFO, ''Step '' @ str (current_step_index (session w)) @ '' ('' @
                      current_step (session w) @ '') interaction count: '' @ str n)] @
              drop (length (logs w)) (logs (try_increment_interactions sid w)))"
proof -
  obtain r w' where mn: "main env text w = (r, w')" by (cases "main env text w")
  have approved: "(INFO, ''Step advancement approved for student '' @ sid @ '' with '' @ str n @
                   '' interactions'') \<in> set (logs w')"
    if mk: "contains (concat (reply_tokens env)) marker"
      and ng: "\<not> fst (advancement_guards (lower (strip text)) n)"
  proof -
    from main_marker_decided[OF assms(1-5) mk assms(6) refl refl] ng obtain w4 where
      l: "last (logs w4) = (INFO, ''Step advancement approved for student '' @ sid @ '' with '' @
                                   str n @ '' interactions'')" "logs w4 \<noteq> []"
      and mm: "main env text w =
              (case commit_advance sid (session w) n w4 of
                      (Inl (Exception e), w5) \<Rightarrow> (Inr (), main_except e w5)
                    | (Inr _, w5) \<Rightarrow>
                        (Inr (), try_increment_interactions sid (update_memory ''mentor'' text (replace (concat (reply_tokens env)) marker []) w5)))"
      by auto
    have in4: "(INFO, ''Step advancement approved for student '' @ sid @ '' with '' @ str n @
                   '' interactions'') \<in> set (logs w4)"
      using l last_in_set by metis
    obtain r5 w5 where ca: "commit_advance sid (session w) n w4 = (r5, w5)"
      by (cases "commit_advance sid (session w) n w4")
    have in5: "(INFO, ''Step advancement approved for student '' @ sid @ '' with '' @ str n @
                   '' interactions'') \<in> set (logs w5)"
      using ca in4
      by (auto simp: commit_advance_def Let_def try_save_session_keeps_log split: if_splits sum.splits)
    show ?thesis
      using in5 ca mn
      by (auto simp: mm main_except_def Let_def try_increment_interactions_keeps_log
          split: sum.splits exn.splits)
  qed
  have explicit: "(\<forall>k. advancement_guards m k =
                   (False, Some ''user requested next step'',
                    [(INFO, ''User requested to move to next step'')])) \<and>
            (INFO, ''Step advancement approved for student '' @ sid @ '' with '' @ str n @
                   '' interactions'') \<in> set (logs w') \<and>
            (current_step_index (session w) < total_steps (session w) - 1 \<and>
             getitem (pitch_steps (session w)) (current_step_index (session w) + 1) = Inr step \<longrightarrow>
               current_step_index (session w') = current_step_index (session w) + 1 \<and>
               current_step (session w') = step)"
    if mk: "contains (concat (reply_tokens env)) marker"
      and ex: "m = ''/next'' \<or> contains m ''next step''"
  proof -
    have ng: "\<not> fst (advancement_guards (lower (strip text)) n)"
      using guards_explicit[OF ex, of n] assms(7) by simp
    have "current_step_index (session w') = current_step_index (session w) + 1 \<and>
          current_step (session w') = step"
      if "current_step_index (session w) < total_steps (session w) - 1"
        and "getitem (pitch_steps (session w)) (current_step_index (session w) + 1) = Inr step"
      using main_commit_outcome[OF assms(1-5) mk assms(6) ng that mn] by simp
    with guards_explicit[OF ex] approved[OF mk ng] show ?thesis by simp
  qed
  have minimum: "current_step_index (session w') = current_step_index (session w) \<and>
            (INFO, ''Skipping step advancement for student '' @ sid @ '': '' @
                   (if list_ex (\<lambda>phrase. phrase = m) common_phrases
                    then ''message contains only greeting''
                    else ''insufficient interactions (only '' @ str n @ '')''))
              \<in> set (logs w')"
    if mk: "contains (concat (reply_tokens env)) marker"
      and b: "m \<noteq> ''/next''" "\<not> contains m ''next step''" "n < 2"
  proof -
    from guards_minimum[OF b] assms(7)
    have g: "fst (advancement_guards (lower (strip text)) n)"
      "fst (snd (advancement_guards (lower (strip text)) n)) =
         Some (if list_ex (\<lambda>phrase. phrase = m) common_phrases
               then ''message contains only greeting''
               else ''insufficient interactions (only '' @ str n @ '')'')"
      by simp_all
    from main_blocked_outcome[OF assms(1-5) mk assms(6) g(1) mn] g(2) show ?thesis by simp
  qed
  have plain: "current_step_index (session w') = current_step_index (session w) \<and>
            current_step (session w') = current_step (session w) \<and>
            notifications (outbox w') = notifications (outbox w) \<and>
            logs w' =
              logs w @
              [(INFO, ''Sending to mentor agent''),
               (INFO, ''Step '' @ str (current_step_index (session w)) @ '' ('' @
                      current_step (session w) @ '') interaction count: '' @ str n)] @
              drop (length (logs w)) (logs (try_increment_interactions sid w))"
    if nm: "\<not> contains (concat (reply_tokens env)) marker"
    using main_plain_reply_trace[OF assms(1-5) nm] mn assms(6) by simp
  from explicit minimum plain mn show ?thesis by simp
qed

text \<open>C2 at three concrete messages, each the first of its step. With the marker in the
  reply, \<^verbatim>\<open>/next\<close> advances from step 0 to step 1 and \<^verbatim>\<open>tell me\<close> is blocked for
  insufficient interactions. Without the marker, \<^verbatim>\<open>/next\<close> leaves the index at 0 and the
  log has the agent line, the count line and the two lines of the store call.\<close>

theorem explicit_request_then_minimum_interactions_witness:
  "current_step_index (session (snd (main (streaming [''Fine. [STEP_COMPLETED]'']) ''/next''
      (snd (start 12345678 (fresh_world healthy_store)))))) = 1 \<and>
   current_step_index (session (snd (main (streaming [''Fine. [STEP_COMPLETED]'']) ''tell me''
      (snd (start 12345678 (fresh_world healthy_store)))))) = 0 \<and>
   (INFO, ''Skipping step advancement for student 12345678: insufficient interactions (only 1)'')
     \<in> set (logs (snd (main (streaming [''Fine. [STEP_COMPLETED]'']) ''tell me''
                     (snd (start 12345678 (fresh_world healthy_store)))))) \<and>
   current_step_index (session (snd (main (streaming [''Who is it for?'']) ''/next''
      (mentor_world healthy_store 0 0)))) = 0 \<and>
   logs (snd (main (streaming [''Who is it for?'']) ''/next'' (mentor_world healthy_store 0 0))) =
     [(INFO, ''Sending to mentor agent''),
      (INFO, ''Step 0 (Identify the Target Audience) interaction count: 1''),
      (INFO, ''Connected to database successfully''),
      (INFO, ''Incremented interactions for student 12345678'')]"
proof -
  let ?env = "streaming [''Fine. [STEP_COMPLETED]'']"
  let ?plain = "streaming [''Who is it for?'']"
  let ?mw = "mentor_world healthy_store 0 0"
  obtain u w0 where s: "start 12345678 (fresh_world healthy_store) = (u, w0)"
    by (cases "start 12345678 (fresh_world healthy_store)")
  from start_session[OF s] have w0: "student_id (session w0) = Some (str 12345678)"
    "current_step_index (session w0) = 0"
    "agent (session w0) = ''mentor''" "step_interactions (session w0) = Map.empty"
    "pitch_steps (session w0) = all_pitch_steps" "total_steps (session w0) = 5"
    by simp_all
  have sid: "str 12345678 = ''12345678''" by (simp add: str_def digits.simps)
  have e: "reply_error ?env = None" by simp
  have mk: "contains (concat (reply_tokens ?env)) marker"
    by (simp add: marker_def startswith_def)
  have n: "(1::int) = get_count (step_interactions (session w0)) (step_key (current_step_index (session w0))) + 1"
    by (simp add: w0 get_count_def)
  have c1: "''/next'' = lower (strip ''/next'')" by (simp add: str_eval)
  have c2: "''tell me'' = lower (strip ''tell me'')" by (simp add: str_eval)
  have nc: "lower ''tell me'' \<notin> set [''/progress'', ''/upload'', ''/mentor'', ''/peer'', ''/eval'']"
    by (simp add: str_eval)
  have gi: "getitem (pitch_steps (session w0)) (current_step_index (session w0) + 1) = Inr ''Define the Problem/Need''"
    by (simp add: w0 getitem_def all_pitch_steps_def)
  have x: "\<not> contains ''tell me'' ''next step''" "\<not> list_ex (\<lambda>phrase. phrase = ''tell me'') common_phrases"
    by (simp_all add: startswith_def common_phrases_def)
  have one: "str 1 = ''1''" by (simp add: str_def digits.simps)
  have zero: "str 0 = ''0''" by (simp add: str_def digits.simps)
  have msid: "student_id (session ?mw) = Some ''12345678''" "''12345678'' \<noteq> []" by simp_all
  have mag: "agent (session ?mw) = ''mentor''" "reply_error ?plain = None" by simp_all
  have mn1: "(1::int) = get_count (step_interactions (session ?mw)) (step_key (current_step_index (session ?mw))) + 1"
    by simp
  have nm: "\<not> contains (concat (reply_tokens ?plain)) marker"
    by (simp add: marker_def startswith_def)
  have tail: "drop (length (logs ?mw)) (logs (try_increment_interactions ''12345678'' ?mw)) =
      [(INFO, ''Connected to database successfully''),
       (INFO, ''Incremented interactions for student 12345678'')]"
    by (simp add: try_increment_interactions_def increment_interactions_def increment_body_def
        connect_def execute_def close_def)
  have st0: "current_step (session ?mw) = ''Identify the Target Audience''"
    by (simp add: all_pitch_steps_def)
  note a = explicit_request_then_minimum_interactions
         [OF w0(1) str_nonempty next_not_command w0(3) e n c1, of "''Define the Problem/Need''"]
  note b = explicit_request_then_minimum_interactions
         [OF w0(1) str_nonempty nc w0(3) e n c2, of "''Define the Problem/Need''"]
  note c = explicit_request_then_minimum_interactions
         [OF msid next_not_command mag mn1 c1, of "''Define the Problem/Need''"]
  from a mk gi w0 s have p1: "current_step_index (session (snd (main ?env ''/next''
      (snd (start 12345678 (fresh_world healthy_store)))))) = 1"
    by (simp del: contains.simps)
  from b mk x w0 s have p2: "current_step_index (session (snd (main ?env ''tell me''
      (snd (start 12345678 (fresh_world healthy_store)))))) = 0 \<and>
   (INFO, ''Skipping step advancement for student 12345678: insufficient interactions (only 1)'')
     \<in> set (logs (snd (main ?env ''tell me'' (snd (start 12345678 (fresh_world healthy_store))))))"
    by (simp add: sid one del: contains.simps)
  from c nm have p3: "current_step_index (session (snd (main ?plain ''/next'' ?mw))) = 0 \<and>
   logs (snd (main ?plain ''/next'' ?mw)) =
     [(INFO, ''Sending to mentor agent''),
      (INFO, ''Step 0 (Identify the Target Audience) interaction count: 1''),
      (INFO, ''Connected to database successfully''),
      (INFO, ''Incremented interactions for student 12345678'')]"
    unfolding tail st0 by (simp add: one zero del: contains.simps)
  from p1 p2 p3 show ?thesis by blast
qed

text \<open>C2 as stated fails at the greeting \<^verbatim>\<open>hi\<close> sent as the first message of a step: it is
  no advance request and the count is 1, yet the reason the code ends with, and logs,
  is the greeting reason.\<close>

theorem greeting_reason_replaces_insufficient:
  "''hi'' \<noteq> ''/next'' \<and> \<not> contains ''hi'' ''next step'' \<and> (1::int) < 2 \<and>
   advancement_guards ''hi'' 1 =
     (True, Some ''message contains only greeting'',
      [(INFO, ''Preventing premature step advancement: only 1 interactions'')]) \<and>
   (INFO, ''Skipping step advancement for student 12345678: message contains only greeting'')
     \<in> set (logs (snd (main (streaming [''Hello! [STEP_COMPLETED]'']) ''hi''
                     (snd (start 12345678 (fresh_world healthy_store))))))"
proof -
  let ?env = "streaming [''Hello! [STEP_COMPLETED]'']"
  obtain u w0 where s: "start 12345678 (fresh_world healthy_store) = (u, w0)"
    by (cases "start 12345678 (fresh_world healthy_store)")
  from start_session[OF s] have w0: "student_id (session w0) = Some (str 12345678)"
    "current_step_index (session w0) = 0"
    "agent (session w0) = ''mentor''" "step_interactions (session w0) = Map.empty"
    by simp_all
  have sid: "str 12345678 = ''12345678''" by (simp add: str_def digits.simps)
  have e: "reply_error ?env = None" "contains (concat (reply_tokens ?env)) marker"
    by (simp_all add: streaming_def marker_def startswith_def)
  have n: "(1::int) = get_count (step_interactions (session w0)) (step_key (current_step_index (session w0))) + 1"
    by (simp add: w0 get_count_def)
  have nc: "lower ''hi'' \<notin> set [''/progress'', ''/upload'', ''/mentor'', ''/peer'', ''/eval'']"
    by (simp add: str_eval)
  have g: "advancement_guards ''hi'' 1 =
     (True, Some ''message contains only greeting'',
      [(INFO, ''Preventing premature step advancement: only 1 interactions'')])"
    by (simp add: advancement_guards_def guard_chain_def common_phrases_def startswith_def
        str_def digits.simps)
  have m: "lower (strip ''hi'') = ''hi''" by (simp add: str_eval)
  have b: "fst (advancement_guards (lower (strip ''hi'')) 1)" by (simp add: m g)
  obtain r w' where mn: "main ?env ''hi'' w0 = (r, w')" by (cases "main ?env ''hi'' w0")
  from main_blocked_outcome[OF w0(1) str_nonempty nc w0(3) e n b mn] g s mn
  show ?thesis by (simp add: sid m startswith_def)
qed

text \<open>
  C4 (amended). The greeting check runs after the chain of guards 1 to 3 whatever the
  chain decided, and it never changes the decision: a message that equals a greeting
  token has already been blocked by the chain (it is shorter than 10 characters and no
  advance request), so the check only replaces the reason by
  \<^verbatim>\<open>message contains only greeting\<close>; for every other message the result of the chain
  stands as it is.
\<close>

theorem greeting_guard_never_decides:
  "fst (advancement_guards m n) = fst (guard_chain m n) \<and>
   (list_ex (\<lambda>phrase. phrase = m) common_phrases \<longrightarrow>
      fst (guard_chain m n) = True \<and>
      fst (snd (advancement_guards m n)) = Some ''message contains only greeting'') \<and>
   (\<not> list_ex (\<lambda>phrase. phrase = m) common_phrases \<longrightarrow> advancement_guards m n = guard_chain m n)"
  using greeting_not_explicit[of m]
  by (auto simp: advancement_guards_def guard_chain_def split: prod.splits)

text \<open>C4 at \<^verbatim>\<open>hello\<close> with three interactions: guard 3 blocks it as too short, the
  greeting check then replaces the reason.\<close>

theorem greeting_guard_never_decides_witness:
  "fst (guard_chain ''hello'' 3) = True \<and>
   fst (snd (guard_chain ''hello'' 3)) = Some ''message too short'' \<and>
   fst (advancement_guards ''hello'' 3) = True \<and>
   fst (snd (advancement_guards ''hello'' 3)) = Some ''message contains only greeting''"
proof -
  have g: "list_ex (\<lambda>phrase. phrase = ''hello'') common_phrases"
    by (simp add: common_phrases_def)
  have c: "guard_chain ''hello'' 3 = (True, Some ''message too short'', [])"
    by (simp add: guard_chain_def startswith_def)
  from greeting_guard_never_decides[of "''hello''" 3] g c show ?thesis by simp
qed

text \<open>C4 as stated asks for a message that passes guards 1 to 3 and is then blocked by
  the greeting check. There is none: no message leaves the chain unblocked and equals a
  greeting token.\<close>

theorem no_message_passes_chain_and_is_greeting:
  "\<not> (\<exists>m n. fst (guard_chain m n) = False \<and> list_ex (\<lambda>phrase. phrase = m) common_phrases)"
  using greeting_not_explicit
  by (auto simp: guard_chain_def split: if_splits)

text \<open>
  C5. At the last step (index 4 of 5) an approved advance leaves the index and the
  current step as they are, sends exactly one message of its own, the all-steps-complete
  text, which differs from the step-advanced text of every step, and saves the session
  once more: with a working database the statements executed are one upsert of the
  unchanged index with the count of the step, then the interaction increment that ends
  every handled message.
\<close>

theorem terminal_commit_keeps_index:
  assumes "student_id (session w) = Some sid" and "sid \<noteq> []"
    and "lower text \<notin> set [''/progress'', ''/upload'', ''/mentor'', ''/peer'', ''/eval'']"
    and "agent (session w) = ''mentor''"
    and "reply_error env = None"
    and "contains (concat (reply_tokens env)) marker"
    and "n = get_count (step_interactions (session w)) (step_key (current_step_index (session w))) + 1"
    and "\<not> fst (advancement_guards (lower (strip text)) n)"
    and "current_step_index (session w) = 4" and "total_steps (session w) = 5"
  shows "fst (main env text w) = Inr () \<and>
         current_step_index (session (snd (main env text w))) = 4 \<and>
         current_step (session (snd (main env text w))) = current_step (session w) \<and>
         notifications (outbox (snd (main env text w))) =
           notifications (outbox w) @ [all_steps_complete_text] \<and>
         (\<forall>step. all_steps_complete_text \<noteq> step_advanced_text step) \<and>
         (truthy (database_url (store w)) \<and> connect_fault (store w) = None \<and>
          execute_fault (store w) (UpsertSession sid 4 (Some n) None) = None \<and>
          execute_fault (store w) (IncrTotalInteractions sid) = None \<and>
          close_fault (store w) = None \<longrightarrow>
            executed (store (snd (main env text w))) =
              executed (store w) @ [UpsertSession sid 4 (Some n) None, IncrTotalInteractions sid])"
proof -
  obtain r w' where mn: "main env text w = (r, w')" by (cases "main env text w")
  have last: "current_step_index (session w) = total_steps (session w) - 1"
    using assms(9,10) by simp
  note out = main_terminal_outcome[OF assms(1-8) last mn]
  have "executed (store w') =
              executed (store w) @ [UpsertSession sid 4 (Some n) None, IncrTotalInteractions sid]"
    if "truthy (database_url (store w))" "connect_fault (store w) = None"
      "execute_fault (store w) (UpsertSession sid 4 (Some n) None) = None"
      "execute_fault (store w) (IncrTotalInteractions sid) = None"
      "close_fault (store w) = None"
    using main_terminal_store[OF assms(1-8) last that(1,2) _ that(4,5)] that(3) assms(9) mn
    by simp
  with out mn assms(9) notification_texts_differ show ?thesis by simp
qed

text \<open>C5 at the last step with two earlier messages in it: the student sends a long
  answer, the Mentor's reply carries the marker.\<close>

theorem terminal_commit_keeps_index_witness:
  "current_step_index (session (snd (main (streaming [''Great closing! [STEP_COMPLETED]''])
      ''my closing line is ready'' (mentor_world healthy_store 4 2)))) = 4 \<and>
   notifications (outbox (snd (main (streaming [''Great closing! [STEP_COMPLETED]''])
      ''my closing line is ready'' (mentor_world healthy_store 4 2)))) = [all_steps_complete_text] \<and>
   executed (store (snd (main (streaming [''Great closing! [STEP_COMPLETED]''])
      ''my closing line is ready'' (mentor_world healthy_store 4 2)))) =
     [UpsertSession ''12345678'' 4 (Some 3) None, IncrTotalInteractions ''12345678'']"
proof -
  let ?env = "streaming [''Great closing! [STEP_COMPLETED]'']"
  let ?w = "mentor_world healthy_store 4 2"
  have nc: "lower ''my closing line is ready'' \<notin> set [''/progress'', ''/upload'', ''/mentor'', ''/peer'', ''/eval'']"
    by (simp add: str_eval)
  have mk: "contains (concat (reply_tokens ?env)) marker"
    by (simp add: marker_def startswith_def)
  have n: "(3::int) = get_count (step_interactions (session ?w)) (step_key (current_step_index (session ?w))) + 1"
    by simp
  have m: "lower (strip ''my closing line is ready'') = ''my closing line is ready''"
    by (simp add: str_eval)
  have g: "\<not> fst (advancement_guards (lower (strip ''my closing line is ready'')) 3)"
    by (simp add: m advancement_guards_def guard_chain_def common_phrases_def startswith_def)
  have sid: "student_id (session ?w) = Some ''12345678''" "''12345678'' \<noteq> []" by simp_all
  have ag: "agent (session ?w) = ''mentor''" "reply_error ?env = None" by simp_all
  have ix: "current_step_index (session ?w) = 4" "total_steps (session ?w) = 5" by simp_all
  note t = terminal_commit_keeps_index[OF sid nc ag mk n g ix]
  have h: "truthy (database_url (store ?w))" "connect_fault (store ?w) = None"
    "execute_fault (store ?w) (UpsertSession ''12345678'' 4 (Some 3) None) = None"
    "execute_fault (store ?w) (IncrTotalInteractions ''12345678'') = None"
    "close_fault (store ?w) = None"
    by simp_all
  from t h show ?thesis by simp
qed

text \<open>
  C7. None of the three database operations lets an exception out: each returns
  \<^verbatim>\<open>True\<close> exactly when the connection URL is set and connecting, every statement and
  closing went through, and \<^verbatim>\<open>False\<close> otherwise. The handler itself always returns
  normally. When the database refuses the connection during a committed step advance,
  the index in the session still advances, the student still gets the step-advanced
  message, the failure is in the log at error level, and nothing was executed.
\<close>

theorem store_failures_never_surface:
  "fst (save_session_to_db sid idx ti lm w) =
     Inr (truthy (database_url (store w)) \<and> connect_fault (store w) = None \<and>
          execute_fault (store w) (UpsertSession sid idx ti lm) = None \<and>
          close_fault (store w) = None) \<and>
   fst (save_pitch_evaluation sid step_name score feedback w) =
     Inr (truthy (database_url (store w)) \<and> connect_fault (store w) = None \<and>
          execute_fault (store w) (InsertEvaluation sid step_name score feedback) = None \<and>
          execute_fault (store w) (IncrCompletedSteps sid) = None \<and>
          close_fault (store w) = None) \<and>
   fst (increment_interactions sid w) =
     Inr (truthy (database_url (store w)) \<and> connect_fault (store w) = None \<and>
          execute_fault (store w) (IncrTotalInteractions sid) = None \<and>
          close_fault (store w) = None) \<and>
   fst (main env text w) = Inr () \<and>
   (student_id (session w) = Some sid \<and> sid \<noteq> [] \<and>
    lower text \<notin> set [''/progress'', ''/upload'', ''/mentor'', ''/peer'', ''/eval''] \<and>
    agent (session w) = ''mentor'' \<and> reply_error env = None \<and>
    contains (concat (reply_tokens env)) marker \<and>
    \<not> fst (advancement_guards (lower (strip text))
             (get_count (step_interactions (session w))
                (step_key (current_step_index (session w))) + 1)) \<and>
    current_step_index (session w) < total_steps (session w) - 1 \<and>
    getitem (pitch_steps (session w)) (current_step_index (session w) + 1) = Inr step \<and>
    truthy (database_url (store w)) \<and> connect_fault (store w) = Some e \<longrightarrow>
      current_step_index (session (snd (main env text w))) = current_step_index (session w) + 1 \<and>
      current_step (session (snd (main env text w))) = step \<and>
      notifications (outbox (snd (main env text w))) =
        notifications (outbox w) @ [step_advanced_text step] \<and>
      (ERROR, ''Error saving session: '' @ e) \<in> set (logs (snd (main env text w))) \<and>
      executed (store (snd (main env text w))) = executed (store w))"
proof -
  obtain r w' where mn: "main env text w = (r, w')" by (cases "main env text w")
  have ret: "fst (main env text w) = Inr ()" using main_session_step[OF mn] mn by simp
  have adv: "current_step_index (session w') = current_step_index (session w) + 1 \<and>
      current_step (session w') = step \<and>
      notifications (outbox w') = notifications (outbox w) @ [step_advanced_text step] \<and>
      (ERROR, ''Error saving session: '' @ e) \<in> set (logs w') \<and>
      executed (store w') = executed (store w)"
    if c: "student_id (session w) = Some sid" "sid \<noteq> []"
      "lower text \<notin> set [''/progress'', ''/upload'', ''/mentor'', ''/peer'', ''/eval'']"
      "agent (session w) = ''mentor''" "reply_error env = None"
      "contains (concat (reply_tokens env)) marker"
      "\<not> fst (advancement_guards (lower (strip text))
             (get_count (step_interactions (session w))
                (step_key (current_step_index (session w))) + 1))"
      "current_step_index (session w) < total_steps (session w) - 1"
      "getitem (pitch_steps (session w)) (current_step_index (session w) + 1) = Inr step"
      "truthy (database_url (store w))" "connect_fault (store w) = Some e"
    using main_commit_outcome[OF c(1-6) refl c(7-9) mn]
          main_commit_unreachable[OF c(1-6) refl c(7-11)] mn
    by simp
  from ret adv mn show ?thesis
    by (simp add: save_session_to_db_result save_pitch_evaluation_result
        increment_interactions_result)
qed

text \<open>C7 with a database that refuses connections: the student asks for the next step
  at step 0.\<close>

theorem store_failures_never_surface_witness:
  "fst (main (streaming [''On we go. [STEP_COMPLETED]'']) ''/next'' (mentor_world unreachable_store 0 0)) = Inr () \<and>
   current_step_index (session (snd (main (streaming [''On we go. [STEP_COMPLETED]'']) ''/next''
      (mentor_world unreachable_store 0 0)))) = 1 \<and>
   notifications (outbox (snd (main (streaming [''On we go. [STEP_COMPLETED]'']) ''/next''
      (mentor_world unreachable_store 0 0)))) = [step_advanced_text ''Define the Problem/Need''] \<and>
   (ERROR, ''Error saving session: connection refused'')
     \<in> set (logs (snd (main (streaming [''On we go. [STEP_COMPLETED]'']) ''/next''
                     (mentor_world unreachable_store 0 0)))) \<and>
   executed (store (snd (main (streaming [''On we go. [STEP_COMPLETED]'']) ''/next''
      (mentor_world unreachable_store 0 0)))) = []"
proof -
  let ?env = "streaming [''On we go. [STEP_COMPLETED]'']"
  let ?w = "mentor_world unreachable_store 0 0"
  have h: "student_id (session ?w) = Some ''12345678'' \<and> ''12345678'' \<noteq> [] \<and>
    lower ''/next'' \<notin> set [''/progress'', ''/upload'', ''/mentor'', ''/peer'', ''/eval''] \<and>
    agent (session ?w) = ''mentor'' \<and> reply_error ?env = None \<and>
    contains (concat (reply_tokens ?env)) marker \<and>
    \<not> fst (advancement_guards (lower (strip ''/next''))
             (get_count (step_interactions (session ?w))
                (step_key (current_step_index (session ?w))) + 1)) \<and>
    current_step_index (session ?w) < total_steps (session ?w) - 1 \<and>
    getitem (pitch_steps (session ?w)) (current_step_index (session ?w) + 1) = Inr ''Define the Problem/Need'' \<and>
    truthy (database_url (store ?w)) \<and> connect_fault (store ?w) = Some ''connection refused''"
    using next_not_command
    by (simp add: lower_strip_next guards_explicit_next marker_def startswith_def
        getitem_def all_pitch_steps_def)
  note t = store_failures_never_surface[of "''12345678''" _ _ _ ?w _ _ _ ?env "''/next''"
      "''Define the Problem/Need''" "''connection refused''"]
  from t h show ?thesis by simp
qed




text \<open>
  C6 (amended). Whenever a Mentor reply contains the marker, the reply message ends up
  showing the reply with the marker taken out by one pass of \<^verbatim>\<open>str.replace\<close>, whether the
  guards block the advance, the advance commits, or the commit fails. For a reply made
  of pieces without an opening bracket, with the marker between them, that is the
  pieces put together, so no marker is left; a marker that only comes about by the
  removal, as in \<^verbatim>\<open>[STEP_[STEP_COMPLETED]COMPLETED]\<close>, stays. In particular, with
  interaction count 0 and a message of 5 characters that, trimmed and lower-cased, is
  neither \<^verbatim>\<open>/next\<close> nor a greeting token, the index does not change and the logged reason
  is \<^verbatim>\<open>insufficient interactions (only 1)\<close>.
\<close>

theorem marker_stripped_either_way:
  assumes "student_id (session w) = Some sid" and "sid \<noteq> []"
    and "lower text \<notin> set [''/progress'', ''/upload'', ''/mentor'', ''/peer'', ''/eval'']"
    and "agent (session w) = ''mentor''"
    and "reply_error env = None"
    and "contains (concat (reply_tokens env)) marker"
  shows "displayed (outbox (snd (main env text w))) =
           Some (replace (concat (reply_tokens env)) marker []) \<and>
         ((\<forall>seg \<in> set segs. CHR ''['' \<notin> set seg) \<longrightarrow>
            replace (join marker segs) marker [] = concat segs) \<and>
         replace ''[STEP_[STEP_COMPLETED]COMPLETED]'' marker [] = marker \<and>
         (length text = 5 \<and>
          get_count (step_interactions (session w)) (step_key (current_step_index (session w))) = 0 \<and>
          lower (strip text) \<noteq> ''/next'' \<and>
          \<not> list_ex (\<lambda>phrase. phrase = lower (strip text)) common_phrases \<longrightarrow>
            current_step_index (session (snd (main env text w))) = current_step_index (session w) \<and>
            (INFO, ''Skipping step advancement for student '' @ sid @
                   '': insufficient interactions (only 1)'') \<in> set (logs (snd (main env text w))))"
proof -
  obtain r w' where mn: "main env text w = (r, w')" by (cases "main env text w")
  have shown: "displayed (outbox w') = Some (replace (concat (reply_tokens env)) marker [])"
    using main_marker_displayed[OF assms] mn by simp
  have nested: "replace ''[STEP_[STEP_COMPLETED]COMPLETED]'' marker [] = marker"
    by (simp add: marker_def startswith_def)
  have one: "str 1 = ''1''" by (simp add: str_def digits.simps)
  have scenario: "current_step_index (session w') = current_step_index (session w) \<and>
            (INFO, ''Skipping step advancement for student '' @ sid @
                   '': insufficient interactions (only 1)'') \<in> set (logs w')"
    if s: "length text = 5"
      "get_count (step_interactions (session w)) (step_key (current_step_index (session w))) = 0"
      "lower (strip text) \<noteq> ''/next''"
      "\<not> list_ex (\<lambda>phrase. phrase = lower (strip text)) common_phrases"
  proof -
    have nr: "\<not> contains (lower (strip text)) ''next step''"
      using short_message_no_request[of "text"] s(1) by simp
    have n: "(1::int) = get_count (step_interactions (session w)) (step_key (current_step_index (session w))) + 1"
      using s(2) by simp
    from guards_minimum[OF s(3) nr, of 1] s(4)
    have g: "fst (advancement_guards (lower (strip text)) 1)"
      "fst (snd (advancement_guards (lower (strip text)) 1)) = Some ''insufficient interactions (only 1)''"
      by (simp_all add: one)
    from main_blocked_outcome[OF assms n g(1) mn] g(2) show ?thesis by simp
  qed
  from shown nested scenario mn replace_segments[of segs] show ?thesis by simp
qed

text \<open>C6 at step 0 with no earlier message: the student sends \<^verbatim>\<open>ideas\<close>, the reply has
  the marker in the middle.\<close>

theorem marker_stripped_either_way_witness:
  "displayed (outbox (snd (main (streaming [''Nice. '', ''[STEP_COMPLETED]'', '' Go on.'']) ''ideas''
      (mentor_world healthy_store 0 0)))) = Some ''Nice.  Go on.'' \<and>
   current_step_index (session (snd (main (streaming [''Nice. '', ''[STEP_COMPLETED]'', '' Go on.'']) ''ideas''
      (mentor_world healthy_store 0 0)))) = 0 \<and>
   (INFO, ''Skipping step advancement for student 12345678: insufficient interactions (only 1)'')
     \<in> set (logs (snd (main (streaming [''Nice. '', ''[STEP_COMPLETED]'', '' Go on.'']) ''ideas''
                     (mentor_world healthy_store 0 0))))"
proof -
  let ?env = "streaming [''Nice. '', ''[STEP_COMPLETED]'', '' Go on.'']"
  let ?w = "mentor_world healthy_store 0 0"
  have sid: "student_id (session ?w) = Some ''12345678''" "''12345678'' \<noteq> []" by simp_all
  have nc: "lower ''ideas'' \<notin> set [''/progress'', ''/upload'', ''/mentor'', ''/peer'', ''/eval'']"
    by (simp add: str_eval)
  have ag: "agent (session ?w) = ''mentor''" "reply_error ?env = None" by simp_all
  have mk: "contains (concat (reply_tokens ?env)) marker" by (simp add: marker_def startswith_def)
  have segs: "\<forall>seg \<in> set [''Nice. '', '' Go on.'']. CHR ''['' \<notin> set seg" by simp
  have j: "join marker [''Nice. '', '' Go on.''] = concat (reply_tokens ?env)"
    by (simp add: marker_def)
  have m: "lower (strip ''ideas'') = ''ideas''" by (simp add: str_eval)
  have x: "length ''ideas'' = 5"
    "get_count (step_interactions (session ?w)) (step_key (current_step_index (session ?w))) = 0"
    "lower (strip ''ideas'') \<noteq> ''/next''"
    "\<not> list_ex (\<lambda>phrase. phrase = lower (strip ''ideas'')) common_phrases"
    by (simp_all add: m common_phrases_def)
  note t = marker_stripped_either_way[OF sid nc ag mk, of "[''Nice. '', '' Go on.'']"]
  from t segs x have
    a: "displayed (outbox (snd (main ?env ''ideas'' ?w))) = Some (replace (concat (reply_tokens ?env)) marker [])"
    and b: "replace (join marker [''Nice. '', '' Go on.'']) marker [] = concat [''Nice. '', '' Go on.'']"
    and c: "current_step_index (session (snd (main ?env ''ideas'' ?w))) = current_step_index (session ?w)"
      "(INFO, ''Skipping step advancement for student '' @ ''12345678'' @
                   '': insufficient interactions (only 1)'') \<in> set (logs (snd (main ?env ''ideas'' ?w)))"
    by blast+
  have "replace (concat (reply_tokens ?env)) marker [] = concat [''Nice. '', '' Go on.'']"
    unfolding j[symmetric] by (rule b)
  then have d: "replace (concat (reply_tokens ?env)) marker [] = ''Nice.  Go on.''" by simp
  from a c show ?thesis unfolding d by simp
qed

text \<open>C6 as stated fails for the 5-character message \<^verbatim>\<open>/next\<close>: at step 0 with
  interaction count 0 and the marker in the reply, the index changes to 1.\<close>

theorem five_character_request_advances:
  "length ''/next'' = 5 \<and>
   current_step_index (session (mentor_world healthy_store 0 0)) = 0 \<and>
   get_count (step_interactions (session (mentor_world healthy_store 0 0))) (step_key 0) = 0 \<and>
   contains (concat (reply_tokens (streaming [''Sure. [STEP_COMPLETED]'']))) marker \<and>
   current_step_index (session (snd (main (streaming [''Sure. [STEP_COMPLETED]'']) ''/next''
      (mentor_world healthy_store 0 0)))) = 1"
proof -
  let ?env = "streaming [''Sure. [STEP_COMPLETED]'']"
  let ?w = "mentor_world healthy_store 0 0"
  have sid: "student_id (session ?w) = Some ''12345678''" "''12345678'' \<noteq> []" by simp_all
  have ag: "agent (session ?w) = ''mentor''" "reply_error ?env = None" by simp_all
  have mk: "contains (concat (reply_tokens ?env)) marker" by (simp add: marker_def startswith_def)
  have n: "(1::int) = get_count (step_interactions (session ?w)) (step_key (current_step_index (session ?w))) + 1"
    by simp
  have g: "\<not> fst (advancement_guards (lower (strip ''/next'')) 1)"
    by (simp add: lower_strip_next guards_explicit_next)
  have gi: "current_step_index (session ?w) < total_steps (session ?w) - 1"
    "getitem (pitch_steps (session ?w)) (current_step_index (session ?w) + 1) = Inr ''Define the Problem/Need''"
    by (simp_all add: getitem_def all_pitch_steps_def)
  obtain r w' where mn: "main ?env ''/next'' ?w = (r, w')" by (cases "main ?env ''/next'' ?w")
  from main_commit_outcome[OF sid next_not_command ag mk n g gi mn] mn mk
  show ?thesis by (simp del: contains.simps)
qed

text \<open>
  C9. Handling the progress-check command changes nothing but the outbox: session
  (step index, counters, histories), database and log stay as they are, and the one
  message sent is the progress text computed from the unchanged session and the clock
  reading. So two progress checks in a row report from the same session: the same
  percentage and the same interaction count, and with the same clock reading the two
  messages are equal.
\<close>

theorem progress_check_is_read_only:
  assumes "lower text = ''/progress''" and "lower text' = ''/progress''"
    and "w1 = snd (main env text w)" and "w2 = snd (main env' text' w1)"
    and "c = get_count (step_interactions (session w)) (step_key (current_step_index (session w)))"
  shows "session w1 = session w \<and> store w1 = store w \<and> logs w1 = logs w \<and>
         session w2 = session w \<and> store w2 = store w \<and> logs w2 = logs w \<and>
         (student_id (session w) = Some sid \<and> sid \<noteq> [] \<longrightarrow>
            outbox w1 = outbox w @ [Sent (progress_text (elapsed env) sid (session w) c)] \<and>
            outbox w2 = outbox w1 @ [Sent (progress_text (elapsed env') sid (session w) c)]) \<and>
         (elapsed env' = elapsed env \<longrightarrow> last (outbox w2) = last (outbox w1))"
proof -
  let ?out = "\<lambda>e. case student_id (session w) of
                    None \<Rightarrow> session_error_text
                  | Some sid \<Rightarrow>
                      if sid = [] then session_error_text
                      else progress_text (elapsed e) sid (session w) c"
  have a: "w1 = send (?out env) w"
    unfolding assms(3) main_progress[OF assms(1)] assms(5) by simp
  then have s1: "session w1 = session w" by simp
  have b: "w2 = send (?out env') w1"
    unfolding assms(4) main_progress[OF assms(2)] s1 assms(5) by simp
  from a b show ?thesis by (auto split: option.splits)
qed

text \<open>C9 at step 2 with one message in it, asked twice; 40 percent and one interaction
  both times.\<close>

theorem progress_check_is_read_only_witness:
  "session (snd (main (streaming []) ''/progress''
            (snd (main (streaming []) ''/Progress'' (mentor_world healthy_store 2 1))))) =
     session (mentor_world healthy_store 2 1) \<and>
   progress_percentage 2 5 = 40 \<and>
   outbox (snd (main (streaming []) ''/progress''
            (snd (main (streaming []) ''/Progress'' (mentor_world healthy_store 2 1))))) =
     [Sent (progress_text ''0.0'' ''12345678'' (session (mentor_world healthy_store 2 1)) 1),
      Sent (progress_text ''0.0'' ''12345678'' (session (mentor_world healthy_store 2 1)) 1)]"
proof -
  let ?w = "mentor_world healthy_store 2 1"
  have l: "lower ''/Progress'' = ''/progress''" "lower ''/progress'' = ''/progress''"
    by (simp_all add: str_eval)
  have sid: "student_id (session ?w) = Some ''12345678''" "''12345678'' \<noteq> []" by simp_all
  have c: "(1::int) = get_count (step_interactions (session ?w)) (step_key (current_step_index (session ?w)))"
    by simp
  note t = progress_check_is_read_only[OF l refl refl c, of "streaming []" "streaming []" "''12345678''"]
  have p: "progress_percentage 2 5 = 40" by (simp add: progress_percentage_def)
  from t p sid show ?thesis by simp
qed

text \<open>
  C8 (amended). The extractor looks at the end of the file name only. For a name that
  ends in neither \<^verbatim>\<open>.pdf\<close> nor \<^verbatim>\<open>.docx\<close> it returns \<^verbatim>\<open>None\<close> and logs a warning; when
  the parser of a \<^verbatim>\<open>.pdf\<close> or \<^verbatim>\<open>.docx\<close> raises it returns \<^verbatim>\<open>None\<close> and logs at error
  level, not a warning; it never raises. A file that parses gives a string, which may be
  empty and is not \<^verbatim>\<open>None\<close>. So an uploaded \<^verbatim>\<open>.txt\<close> file brings the upload prompt and the
  could-not-extract message, the warning in the log, and no statement reaches the
  database.
\<close>

theorem extractor_returns_none:
  "(\<not> endswith (name f) ''.pdf'' \<and> \<not> endswith (name f) ''.docx'' \<longrightarrow>
      extract_text_from_file f w =
        (Inr None, logging WARNING ('' Unsupported file type: '' @ name f) w)) \<and>
   (endswith (name f) ''.pdf'' \<and> pdf_pages f = Inl (Exception e) \<longrightarrow>
      extract_text_from_file f w =
        (Inr None, logging ERROR ('' Error extracting text from '' @ name f @ '': '' @ e) w)) \<and>
   (\<not> endswith (name f) ''.pdf'' \<and> endswith (name f) ''.docx'' \<and>
    docx_paragraphs f = Inl (Exception e) \<longrightarrow>
      extract_text_from_file f w =
        (Inr None, logging ERROR ('' Error extracting text from '' @ name f @ '': '' @ e) w)) \<and>
   (endswith (name f) ''.pdf'' \<and> pdf_pages f = Inr pages \<longrightarrow>
      extract_text_from_file f w =
        (Inr (Some (join ''\<newline>'' (filter (\<lambda>t. t \<noteq> []) pages))), w)) \<and>
   (\<not> endswith (name f) ''.pdf'' \<and> endswith (name f) ''.docx'' \<and>
    docx_paragraphs f = Inr paras \<longrightarrow>
      extract_text_from_file f w = (Inr (Some (join ''\<newline>'' paras)), w)) \<and>
   (\<exists>r. fst (extract_text_from_file f w) = Inr r) \<and>
   (student_id (session w) = Some sid \<and> sid \<noteq> [] \<and> lower text = ''/upload'' \<and>
    upload env = Some f \<and> endswith (name f) ''.txt'' \<longrightarrow>
      fst (main env text w) = Inr () \<and>
      notifications (outbox (snd (main env text w))) =
        notifications (outbox w) @ [upload_prompt_text, extract_failed_text] \<and>
      logs (snd (main env text w)) =
        logs w @ [(WARNING, '' Unsupported file type: '' @ name f)] \<and>
      store (snd (main env text w)) = store w \<and>
      session (snd (main env text w)) = session w)"
proof -
  have up: "fst (main env text w) = Inr () \<and>
      notifications (outbox (snd (main env text w))) =
        notifications (outbox w) @ [upload_prompt_text, extract_failed_text] \<and>
      logs (snd (main env text w)) =
        logs w @ [(WARNING, '' Unsupported file type: '' @ name f)] \<and>
      store (snd (main env text w)) = store w \<and>
      session (snd (main env text w)) = session w"
    if c: "student_id (session w) = Some sid" "sid \<noteq> []" "lower text = ''/upload''"
      "upload env = Some f" "endswith (name f) ''.txt''"
  proof -
    from endswith_txt[OF c(5)]
    have n: "\<not> endswith (name f) ''.pdf''" "\<not> endswith (name f) ''.docx''" by simp_all
    show ?thesis by (simp add: main_upload_unsupported[OF c(1-4) n])
  qed
  from up extract_never_raises[of f w] show ?thesis
    by (simp add: extract_unsupported extract_pdf_raises extract_docx_raises
        extract_pdf_ok extract_docx_ok)
qed

text \<open>C8 at three uploads: a text file sent with \<^verbatim>\<open>/upload\<close>, a PDF whose parser raises,
  and a PDF of three pages of which the middle one is empty.\<close>

theorem extractor_returns_none_witness:
  "notifications (outbox (snd (main (uploading notes_txt (\<lambda>p. Inr ''Score: 5/10'')) ''/upload''
      (mentor_world healthy_store 4 2)))) = [upload_prompt_text, extract_failed_text] \<and>
   executed (store (snd (main (uploading notes_txt (\<lambda>p. Inr ''Score: 5/10'')) ''/upload''
      (mentor_world healthy_store 4 2)))) = [] \<and>
   logs (snd (main (uploading notes_txt (\<lambda>p. Inr ''Score: 5/10'')) ''/upload''
      (mentor_world healthy_store 4 2))) = [(WARNING, '' Unsupported file type: notes.txt'')] \<and>
   extract_text_from_file broken_pdf (fresh_world healthy_store) =
     (Inr None,
      logging ERROR '' Error extracting text from pitch.pdf: EOF marker not found''
        (fresh_world healthy_store)) \<and>
   extract_text_from_file pitch_pdf (fresh_world healthy_store) =
     (Inr (Some ''We help students.\<newline>Join us.''), fresh_world healthy_store)"
proof -
  let ?env = "uploading notes_txt (\<lambda>p. Inr ''Score: 5/10'')"
  let ?w = "mentor_world healthy_store 4 2"
  have a: "student_id (session ?w) = Some ''12345678'' \<and> ''12345678'' \<noteq> [] \<and>
           lower ''/upload'' = ''/upload'' \<and> upload ?env = Some notes_txt \<and>
           endswith (name notes_txt) ''.txt''"
    by (simp add: str_eval notes_txt_def)
  have b: "endswith (name broken_pdf) ''.pdf'' \<and>
           pdf_pages broken_pdf = Inl (Exception ''EOF marker not found'')"
    by (simp add: broken_pdf_def endswith_def)
  have c: "endswith (name pitch_pdf) ''.pdf'' \<and>
           pdf_pages pitch_pdf = Inr [''We help students.'', [], ''Join us.'']"
    by (simp add: pitch_pdf_def endswith_def)
  note t1 = extractor_returns_none[of notes_txt ?w _ _ _ "''12345678''" "''/upload''" ?env]
  note t2 = extractor_returns_none[of broken_pdf "fresh_world healthy_store" "''EOF marker not found''"]
  note t3 = extractor_returns_none[of pitch_pdf "fresh_world healthy_store" _
      "[''We help students.'', [], ''Join us.'']"]
  from t1 a have
    "notifications (outbox (snd (main ?env ''/upload'' ?w))) =
        notifications (outbox ?w) @ [upload_prompt_text, extract_failed_text]"
    "logs (snd (main ?env ''/upload'' ?w)) =
        logs ?w @ [(WARNING, '' Unsupported file type: '' @ name notes_txt)]"
    "store (snd (main ?env ''/upload'' ?w)) = store ?w"
    by blast+
  moreover from t2 b have "extract_text_from_file broken_pdf (fresh_world healthy_store) =
        (Inr None, logging ERROR ('' Error extracting text from '' @ name broken_pdf @ '': '' @
                                  ''EOF marker not found'') (fresh_world healthy_store))"
    by blast
  moreover from t3 c have "extract_text_from_file pitch_pdf (fresh_world healthy_store) =
        (Inr (Some (join ''\<newline>'' (filter (\<lambda>t. t \<noteq> []) [''We help students.'', [], ''Join us.'']))),
         fresh_world healthy_store)"
    by blast
  ultimately show ?thesis by (simp add: notes_txt_def broken_pdf_def)
qed

text \<open>C8 as stated fails where the parser raises: the log entry of a PDF that cannot be
  read is at error level, and no warning is logged.\<close>

theorem parse_failure_logs_error_not_warning:
  "fst (extract_text_from_file broken_pdf (fresh_world healthy_store)) = Inr None \<and>
   logs (snd (extract_text_from_file broken_pdf (fresh_world healthy_store))) =
     [(ERROR, '' Error extracting text from pitch.pdf: EOF marker not found'')] \<and>
   \<not> (\<exists>m. (WARNING, m) \<in> set (logs (snd (extract_text_from_file broken_pdf (fresh_world healthy_store)))))"
  by (simp add: extract_text_from_file_def extract_body_def broken_pdf_def endswith_def
      fresh_world_def)

text \<open>
  C3 (amended). The score is read at the leftmost place of the feedback where the
  pattern of \<^verbatim>\<open>process_file\<close> occurs: the label \<^verbatim>\<open>Score\<close> or \<^verbatim>\<open>score\<close> (required, and only its
  first letter may be a capital), one or more colons or white-space characters, one or
  two digits, optional white space, a slash, optional white space, \<^verbatim>\<open>10\<close>. The score is
  the number those digits spell, so it lies between 0 and 99. When the pattern occurs
  nowhere the score is \<^verbatim>\<open>None\<close>, which is not the score 0. For the feedback
  \<^verbatim>\<open>Great pitch! Score: 8/10. Needs tighter closing.\<close> the score is 8. With a working
  database the evaluation is stored with that score and the feedback text as it came,
  and the student is shown the same text.
\<close>

theorem score_is_leftmost_labelled_match:
  "(parse_score feedback = Some n \<longleftrightarrow>
      (\<exists>pre rest ds. feedback = pre @ rest \<and> score_pattern rest ds \<and> n = int_of_digits ds \<and>
         (\<forall>k < length pre. \<forall>ds'. \<not> score_pattern (drop k feedback) ds'))) \<and>
   (parse_score feedback = None \<longleftrightarrow> (\<forall>k ds. \<not> score_pattern (drop k feedback) ds)) \<and>
   (parse_score feedback = Some n \<longrightarrow> 0 \<le> n \<and> n \<le> 99) \<and>
   parse_score ''Great pitch! Score: 8/10. Needs tighter closing.'' = Some 8 \<and>
   parse_score ''Score: 0/10'' = Some 0 \<and>
   parse_score ''Well structured, but no mark given.'' = None \<and>
   (student_id (session w) = Some sid \<and> sid \<noteq> [] \<and>
    extract_text_from_file f w = (Inr (Some pitch), w1) \<and> pitch \<noteq> [] \<and>
    evaluator env pitch = Inr feedback \<and>
    truthy (database_url (store w)) \<and> connect_fault (store w) = None \<and>
    execute_fault (store w)
      (InsertEvaluation sid (current_step (session w)) (parse_score feedback) feedback) = None \<and>
    execute_fault (store w) (IncrCompletedSteps sid) = None \<and>
    close_fault (store w) = None \<longrightarrow>
      fst (process_file env f w) = Inr () \<and>
      executed (store (snd (process_file env f w))) =
        executed (store w) @
          [InsertEvaluation sid (current_step (session w)) (parse_score feedback) feedback,
           IncrCompletedSteps sid] \<and>
      notifications (outbox (snd (process_file env f w))) =
        notifications (outbox w) @ ['' Evaluation Complete:\<newline>\<newline>'' @ feedback])"
proof -
  have stored: "fst (process_file env f w) = Inr () \<and>
      executed (store (snd (process_file env f w))) =
        executed (store w) @
          [InsertEvaluation sid (current_step (session w)) (parse_score feedback) feedback,
           IncrCompletedSteps sid] \<and>
      notifications (outbox (snd (process_file env f w))) =
        notifications (outbox w) @ ['' Evaluation Complete:\<newline>\<newline>'' @ feedback]"
    if "student_id (session w) = Some sid \<and> sid \<noteq> [] \<and>
        extract_text_from_file f w = (Inr (Some pitch), w1) \<and> pitch \<noteq> [] \<and>
        evaluator env pitch = Inr feedback \<and>
        truthy (database_url (store w)) \<and> connect_fault (store w) = None \<and>
        execute_fault (store w)
          (InsertEvaluation sid (current_step (session w)) (parse_score feedback) feedback) = None \<and>
        execute_fault (store w) (IncrCompletedSteps sid) = None \<and>
        close_fault (store w) = None"
    using process_file_evaluates[of w sid f pitch w1 env feedback] that by simp
  have range: "0 \<le> n \<and> n \<le> 99" if "parse_score feedback = Some n"
    using parse_score_range[OF that] .
  show ?thesis
    apply (intro conjI)
          apply (rule parse_score_Some_iff)
         apply (rule parse_score_None_iff)
        apply (rule impI, erule range)
       apply (rule scenario_e_score)
      apply (rule zero_is_not_absent)
     apply (rule no_score_is_absent)
    apply (rule impI, erule stored)
    done
qed

text \<open>C3 at the feedback of the scenario, given for a two-page pitch at the last step.\<close>

theorem score_is_leftmost_labelled_match_witness:
  "parse_score ''Great pitch! Score: 8/10. Needs tighter closing.'' = Some 8 \<and>
   (\<exists>pre rest ds. ''Great pitch! Score: 8/10. Needs tighter closing.'' = pre @ rest \<and>
      score_pattern rest ds \<and> 8 = int_of_digits ds) \<and>
   executed (store (snd (process_file
      (uploading pitch_pdf (\<lambda>p. Inr ''Great pitch! Score: 8/10. Needs tighter closing.''))
      pitch_pdf (mentor_world healthy_store 4 2)))) =
     [InsertEvaluation ''12345678'' ''End with a Strong Closing Statement'' (Some 8)
        ''Great pitch! Score: 8/10. Needs tighter closing.'',
      IncrCompletedSteps ''12345678'']"
proof -
  let ?fb = "''Great pitch! Score: 8/10. Needs tighter closing.''"
  let ?env = "uploading pitch_pdf (\<lambda>p. Inr ?fb)"
  let ?w = "mentor_world healthy_store 4 2"
  note t = score_is_leftmost_labelled_match[of ?fb 8 ?w "''12345678''" pitch_pdf
      "''We help students.\<newline>Join us.''" ?w ?env]
  from t have p: "parse_score ?fb = Some 8" by blast
  from t p have ex: "\<exists>pre rest ds. ?fb = pre @ rest \<and> score_pattern rest ds \<and> 8 = int_of_digits ds"
    by blast
  have h: "student_id (session ?w) = Some ''12345678'' \<and> ''12345678'' \<noteq> [] \<and>
    extract_text_from_file pitch_pdf ?w = (Inr (Some ''We help students.\<newline>Join us.''), ?w) \<and>
    ''We help students.\<newline>Join us.'' \<noteq> [] \<and>
    evaluator ?env ''We help students.\<newline>Join us.'' = Inr ?fb \<and>
    truthy (database_url (store ?w)) \<and> connect_fault (store ?w) = None \<and>
    execute_fault (store ?w)
      (InsertEvaluation ''12345678'' (current_step (session ?w)) (parse_score ?fb) ?fb) = None \<and>
    execute_fault (store ?w) (IncrCompletedSteps ''12345678'') = None \<and>
    close_fault (store ?w) = None"
    by (simp add: extract_text_from_file_def extract_body_def pitch_pdf_def endswith_def)
  from t h have "executed (store (snd (process_file ?env pitch_pdf ?w))) =
        executed (store ?w) @
          [InsertEvaluation ''12345678'' (current_step (session ?w)) (parse_score ?fb) ?fb,
           IncrCompletedSteps ''12345678'']"
    by blast
  then have "executed (store (snd (process_file ?env pitch_pdf ?w))) =
     [InsertEvaluation ''12345678'' ''End with a Strong Closing Statement'' (Some 8) ?fb,
      IncrCompletedSteps ''12345678'']"
    unfolding p by (simp add: all_pitch_steps_def)
  with p ex show ?thesis by blast
qed

text \<open>C3 as stated fails at a feedback with the label in capitals: one digit stands
  immediately in front of \<^verbatim>\<open>/10\<close> and a label in some case precedes it, so the wording
  gives 8; the code finds no match.\<close>

theorem capital_label_is_not_matched:
  "claimed_score ''SCORE: 8/10'' = Some 8 \<and> parse_score ''SCORE: 8/10'' = None"
  by (simp add: score_eval claimed_score_def claimed_at_def)

end
